theory Spec2Isabelle
  imports Main "HOL-Library.Word"
begin

unbundle bit_operations_syntax

section \<open>The virtual-memory core of the Pintos port: data model\<close>

text \<open>
  The embedding follows \<^verbatim>\<open>vm/page.h\<close>, \<^verbatim>\<open>vm/page.c\<close>, \<^verbatim>\<open>vm/frame.h\<close>, \<^verbatim>\<open>vm/frame.c\<close> and
  the system-call file \<^verbatim>\<open>userprog/syscall.c\<close>. Pointers and sizes are 32-bit words, a
  nullable pointer is an \<open>option\<close>, kernel heap objects live in an explicit store
  (\<open>sptes\<close>) because the frame table and the hash table alias them, and everything the C
  code does besides returning (panics, process exit, a null dereference) is a value of
  \<open>error\<close>. Locks are not modelled: every function below is the sequential behaviour of
  one kernel thread between two suspension points. The bytes held by pages, files and swap
  slots are not modelled either; a used swap slot only remembers which frame it was filled
  from.
\<close>

type_synonym addr = "32 word"
type_synonym spte_ptr = nat
type_synonym tid = nat
type_synonym file_ptr = nat

datatype error = Panic string | Exit int | NullDeref

text \<open>\<^verbatim>\<open>enum spte_type\<close> of \<^verbatim>\<open>vm/page.h\<close>.\<close>

datatype spte_type = CODE | FILE | MMAP

text \<open>\<^verbatim>\<open>struct spt_entry\<close> of \<^verbatim>\<open>vm/page.h\<close> (the hash linkage is the table itself).\<close>

record spt_entry =
  type :: spte_type
  upage :: addr
  frame :: "addr option"
  pinned :: bool
  is_in_swap :: bool
  idx :: "32 word"
  spte_file :: file_ptr
  ofs :: "32 word"
  writable :: bool
  page_read_bytes :: "32 word"
  page_zero_bytes :: "32 word"

text \<open>\<^verbatim>\<open>struct frame_table_entry\<close> of \<^verbatim>\<open>vm/frame.h\<close>.\<close>

record frame_table_entry =
  fte_frame :: "addr option"
  fte_spte :: spte_ptr
  fte_t :: tid

text \<open>
  Modelled from the spec: the page-directory interface (\<^verbatim>\<open>userprog/pagedir.c\<close> is not
  among the sources). A page-table entry carries the present bit, the frame, and the
  writable, accessed and dirty bits.
\<close>

record pte =
  pte_present :: bool
  pte_kpage :: addr
  pte_writable :: bool
  pte_accessed :: bool
  pte_dirty :: bool

text \<open>
  Modelled from the spec: an open file as far as the file operations \<open>length\<close>, \<open>seek\<close>,
  \<open>read\<close> and \<open>write_at\<close> report byte counts (\<^verbatim>\<open>filesys/file.c\<close> is not among the sources).
\<close>

record file_info =
  flength :: "32 word"
  fpos :: "32 word"
  deny_write :: bool

text \<open>
  The kernel state the functions read and write. \<open>cur\<close> is \<^verbatim>\<open>thread_current ()\<close>;
  \<open>supp_page_table t\<close> is the hash table of thread \<open>t\<close> as the list of its elements;
  \<open>pagedir t\<close> maps a page to its page-table entry (\<open>None\<close>: no page table covers it);
  \<open>user_pool\<close> and \<open>kernel_pool\<close> list the free pages of the two pools, the user pool
  holding the pages at or above \<open>user_pool_base\<close>; \<open>swap_map\<close> is the swap bitmap;
  \<open>fd_table t\<close> is \<^verbatim>\<open>t->files\<close>; \<open>umem\<close> is the word the current process holds at a user
  address.
\<close>

record vm_state =
  cur :: tid
  sptes :: "spte_ptr \<Rightarrow> spt_entry"
  next_spte :: spte_ptr
  supp_page_table :: "tid \<Rightarrow> spte_ptr list"
  frame_table :: "frame_table_entry list"
  pagedir :: "tid \<Rightarrow> addr \<Rightarrow> pte option"
  user_pool :: "addr list"
  kernel_pool :: "addr list"
  user_pool_base :: addr
  swap_map :: "addr option list"
  files :: "file_ptr \<Rightarrow> file_info"
  fd_table :: "tid \<Rightarrow> nat \<Rightarrow> file_ptr option"
  umem :: "addr \<Rightarrow> 32 word"

text \<open>
  Constants whose definitions are not among the sources are parameters:
  \<^verbatim>\<open>MAX_STACK_SIZE\<close>, \<^verbatim>\<open>STACK_HEURISTIC\<close> and \<^verbatim>\<open>MAX_FILES\<close>.
\<close>

record vm_config =
  MAX_STACK_SIZE :: "32 word"
  STACK_HEURISTIC :: "32 word"
  MAX_FILES :: int

subsection \<open>Constants and helpers of the base system\<close>

text \<open>
  Modelled from the spec: \<^verbatim>\<open>threads/vaddr.h\<close>, \<^verbatim>\<open>threads/palloc.h\<close> and \<^verbatim>\<open>lib/kernel/bitmap.h\<close>
  are not among the sources. Pages are 4096 bytes (an 8192-byte file padded to 12288 bytes
  is three pages), the user-address ceiling is \<open>0xC0000000\<close> (the stack pointer
  \<open>0xBFFFFFF0\<close> lies just below it), the allocation flags are the bits 1, 2 and 4, and
  \<^verbatim>\<open>BITMAP_ERROR\<close> is the largest \<^verbatim>\<open>size_t\<close>.
\<close>

definition PGSIZE :: "32 word" where
  "PGSIZE = 4096"

definition PHYS_BASE :: addr where
  "PHYS_BASE = 0xC0000000"

definition BITMAP_ERROR :: "32 word" where
  "BITMAP_ERROR = - 1"

definition PAL_ASSERT :: "32 word" where
  "PAL_ASSERT = 1"

definition PAL_ZERO :: "32 word" where
  "PAL_ZERO = 2"

definition PAL_USER :: "32 word" where
  "PAL_USER = 4"

definition pg_round_down :: "addr \<Rightarrow> addr" where
  "pg_round_down va = va AND NOT (PGSIZE - 1)"

definition is_user_vaddr :: "addr \<Rightarrow> bool" where
  "is_user_vaddr va = (va < PHYS_BASE)"

definition pd_no :: "addr \<Rightarrow> 32 word" where
  "pd_no va = drop_bit 22 va"

definition ptr_val :: "addr option \<Rightarrow> addr" where
  "ptr_val p = (case p of None \<Rightarrow> 0 | Some a \<Rightarrow> a)"

subsection \<open>Page directory\<close>

text \<open>
  Modelled from the spec: \<open>get_page\<close>, \<open>clear\<close>, \<open>is_dirty\<close>, \<open>is_accessed\<close>, \<open>set_dirty\<close>,
  \<open>set_accessed\<close> and \<open>install\<close> of the page-directory interface. Clearing a page only
  drops the present bit. Installing a page whose region has no page table yet takes one
  page from the kernel pool for the table and fails when that pool is empty.
\<close>

definition lookup_page :: "vm_state \<Rightarrow> tid \<Rightarrow> addr \<Rightarrow> pte option" where
  "lookup_page s t va = pagedir s t (pg_round_down va)"

definition pagedir_get_page :: "vm_state \<Rightarrow> tid \<Rightarrow> addr \<Rightarrow> addr option" where
  "pagedir_get_page s t va =
     (case lookup_page s t va of
        None \<Rightarrow> None
      | Some e \<Rightarrow> if pte_present e then Some (pte_kpage e + (va AND (PGSIZE - 1))) else None)"

definition pagedir_is_dirty :: "vm_state \<Rightarrow> tid \<Rightarrow> addr \<Rightarrow> bool" where
  "pagedir_is_dirty s t va =
     (case lookup_page s t va of None \<Rightarrow> False | Some e \<Rightarrow> pte_dirty e)"

definition pagedir_is_accessed :: "vm_state \<Rightarrow> tid \<Rightarrow> addr \<Rightarrow> bool" where
  "pagedir_is_accessed s t va =
     (case lookup_page s t va of None \<Rightarrow> False | Some e \<Rightarrow> pte_accessed e)"

definition update_pte :: "tid \<Rightarrow> addr \<Rightarrow> (pte \<Rightarrow> pte) \<Rightarrow> vm_state \<Rightarrow> vm_state" where
  "update_pte t va f s =
     (case lookup_page s t va of
        None \<Rightarrow> s
      | Some e \<Rightarrow>
          s\<lparr>pagedir := (pagedir s)(t := (pagedir s t)(pg_round_down va := Some (f e)))\<rparr>)"

definition pagedir_set_dirty :: "tid \<Rightarrow> addr \<Rightarrow> bool \<Rightarrow> vm_state \<Rightarrow> vm_state" where
  "pagedir_set_dirty t va b s = update_pte t va (\<lambda>e. e\<lparr>pte_dirty := b\<rparr>) s"

definition pagedir_set_accessed :: "tid \<Rightarrow> addr \<Rightarrow> bool \<Rightarrow> vm_state \<Rightarrow> vm_state" where
  "pagedir_set_accessed t va b s = update_pte t va (\<lambda>e. e\<lparr>pte_accessed := b\<rparr>) s"

definition pagedir_clear_page :: "tid \<Rightarrow> addr \<Rightarrow> vm_state \<Rightarrow> vm_state" where
  "pagedir_clear_page t va s = update_pte t va (\<lambda>e. e\<lparr>pte_present := False\<rparr>) s"

definition pte_create_user :: "addr \<Rightarrow> bool \<Rightarrow> pte" where
  "pte_create_user kpage rw =
     \<lparr>pte_present = True, pte_kpage = kpage, pte_writable = rw,
      pte_accessed = False, pte_dirty = False\<rparr>"

definition zero_pte :: pte where
  "zero_pte =
     \<lparr>pte_present = False, pte_kpage = 0, pte_writable = False,
      pte_accessed = False, pte_dirty = False\<rparr>"

definition pagedir_set_page :: "tid \<Rightarrow> addr \<Rightarrow> addr \<Rightarrow> bool \<Rightarrow> vm_state \<Rightarrow> bool \<times> vm_state" where
  "pagedir_set_page t up kpage rw s =
     (case lookup_page s t up of
        Some e \<Rightarrow>
          (True, s\<lparr>pagedir := (pagedir s)(t := (pagedir s t)
                     (pg_round_down up := Some (pte_create_user kpage rw)))\<rparr>)
      | None \<Rightarrow>
          (case kernel_pool s of
             [] \<Rightarrow> (False, s)
           | k # ks \<Rightarrow>
               (True, s\<lparr>kernel_pool := ks,
                         pagedir := (pagedir s)(t := (\<lambda>a.
                           if a = pg_round_down up then Some (pte_create_user kpage rw)
                           else if pd_no a = pd_no up \<and> pagedir s t a = None then Some zero_pte
                           else pagedir s t a))\<rparr>)))"

text \<open>
  Modelled from the spec: \<^verbatim>\<open>install_page\<close> of \<^verbatim>\<open>userprog/process.c\<close> (not among the
  sources) maps a page of the current process unless the page is mapped already.
\<close>

definition install_page :: "addr \<Rightarrow> addr \<Rightarrow> bool \<Rightarrow> vm_state \<Rightarrow> bool \<times> vm_state" where
  "install_page up kpage rw s =
     (if pagedir_get_page s (cur s) up = None then pagedir_set_page (cur s) up kpage rw s
      else (False, s))"

subsection \<open>Frame pool\<close>

text \<open>
  Modelled from the spec: \<open>palloc(flags)\<close> and \<open>pfree(kpage)\<close> of the frame pool
  (\<^verbatim>\<open>threads/palloc.c\<close> is not among the sources). The \<^verbatim>\<open>PAL_USER\<close> bit selects the pool,
  \<^verbatim>\<open>PAL_ASSERT\<close> turns exhaustion into a panic, and a freed page returns to the pool its
  address belongs to.
\<close>

definition palloc_get_page :: "32 word \<Rightarrow> vm_state \<Rightarrow> error + (addr option \<times> vm_state)" where
  "palloc_get_page flags s =
     (if flags AND PAL_USER \<noteq> 0 then
        (case user_pool s of
           k # ks \<Rightarrow> Inr (Some k, s\<lparr>user_pool := ks\<rparr>)
         | [] \<Rightarrow> if flags AND PAL_ASSERT \<noteq> 0 then Inl (Panic ''palloc_get: out of pages'')
                 else Inr (None, s))
      else
        (case kernel_pool s of
           k # ks \<Rightarrow> Inr (Some k, s\<lparr>kernel_pool := ks\<rparr>)
         | [] \<Rightarrow> if flags AND PAL_ASSERT \<noteq> 0 then Inl (Panic ''palloc_get: out of pages'')
                 else Inr (None, s)))"

definition palloc_free_page :: "addr option \<Rightarrow> vm_state \<Rightarrow> vm_state" where
  "palloc_free_page page s =
     (case page of
        None \<Rightarrow> s
      | Some k \<Rightarrow> if user_pool_base s \<le> k then s\<lparr>user_pool := k # user_pool s\<rparr>
                  else s\<lparr>kernel_pool := k # kernel_pool s\<rparr>)"

subsection \<open>Swap device\<close>

text \<open>
  Modelled from the spec: \<open>swap_out(spte)\<close> allocates a slot and copies the frame of the
  entry into it, or returns \<^verbatim>\<open>BITMAP_ERROR\<close> when every slot is in use; \<open>swap_in(spte)\<close>
  reads the slot of the entry back and frees it (\<^verbatim>\<open>vm/swap.c\<close> is not among the sources).
\<close>

fun find_free :: "'a option list \<Rightarrow> nat option" where
  "find_free [] = None"
| "find_free (x # xs) =
     (case x of None \<Rightarrow> Some 0 | Some y \<Rightarrow> map_option Suc (find_free xs))"

definition swap_out :: "spte_ptr \<Rightarrow> vm_state \<Rightarrow> 32 word \<times> vm_state" where
  "swap_out p s =
     (case find_free (swap_map s) of
        None \<Rightarrow> (BITMAP_ERROR, s)
      | Some i \<Rightarrow>
          (of_nat i, s\<lparr>swap_map := (swap_map s)[i := Some (ptr_val (frame (sptes s p)))]\<rparr>))"

definition swap_in :: "spte_ptr \<Rightarrow> vm_state \<Rightarrow> vm_state" where
  "swap_in p s = s\<lparr>swap_map := (swap_map s)[unat (idx (sptes s p)) := None]\<rparr>"

subsection \<open>Files\<close>

text \<open>
  Modelled from the spec: reads and writes stop at the end of the file, and a write to a
  file whose writes are denied transfers nothing. \<open>io_count len pos n\<close> is the number of
  bytes a transfer of \<open>n\<close> bytes at offset \<open>pos\<close> moves in a file of \<open>len\<close> bytes.
\<close>

definition io_count :: "32 word \<Rightarrow> 32 word \<Rightarrow> 32 word \<Rightarrow> 32 word" where
  "io_count len pos n =
     (if sint n \<le> 0 \<or> sint (len - pos) \<le> 0 then 0
      else if sint n < sint (len - pos) then n else len - pos)"

definition file_length :: "vm_state \<Rightarrow> file_ptr \<Rightarrow> 32 word" where
  "file_length s f = flength (files s f)"

definition file_seek :: "file_ptr \<Rightarrow> 32 word \<Rightarrow> vm_state \<Rightarrow> vm_state" where
  "file_seek f pos s = s\<lparr>files := (files s)(f := (files s f)\<lparr>fpos := pos\<rparr>)\<rparr>"

definition file_read :: "file_ptr \<Rightarrow> 32 word \<Rightarrow> vm_state \<Rightarrow> 32 word \<times> vm_state" where
  "file_read f n s =
     (let fi = files s f; got = io_count (flength fi) (fpos fi) n
      in (got, s\<lparr>files := (files s)(f := fi\<lparr>fpos := fpos fi + got\<rparr>)\<rparr>))"

definition file_write_at :: "vm_state \<Rightarrow> file_ptr \<Rightarrow> 32 word \<Rightarrow> 32 word \<Rightarrow> 32 word" where
  "file_write_at s f n pos =
     (if deny_write (files s f) then 0 else io_count (flength (files s f)) pos n)"

subsection \<open>Hash table of a thread\<close>

text \<open>
  Modelled from the spec: the supplemental page table is keyed by \<open>upage\<close>, and a key occurs
  at most once (\<^verbatim>\<open>lib/kernel/hash.c\<close> is not among the sources). \<open>hash_insert\<close> leaves the
  table alone when an element with the same key is present; \<open>hash_delete\<close> removes the
  element that has the key of its argument.
\<close>

definition hash_find :: "vm_state \<Rightarrow> tid \<Rightarrow> addr \<Rightarrow> spte_ptr option" where
  "hash_find s t key = find (\<lambda>q. upage (sptes s q) = key) (supp_page_table s t)"

definition hash_insert :: "tid \<Rightarrow> spte_ptr \<Rightarrow> vm_state \<Rightarrow> vm_state" where
  "hash_insert t p s =
     (case hash_find s t (upage (sptes s p)) of
        Some old \<Rightarrow> s
      | None \<Rightarrow> s\<lparr>supp_page_table := (supp_page_table s)(t := p # supp_page_table s t)\<rparr>)"

definition hash_delete :: "tid \<Rightarrow> spte_ptr \<Rightarrow> vm_state \<Rightarrow> vm_state" where
  "hash_delete t p s =
     (case hash_find s t (upage (sptes s p)) of
        None \<Rightarrow> s
      | Some found \<Rightarrow>
          s\<lparr>supp_page_table := (supp_page_table s)(t := remove1 found (supp_page_table s t))\<rparr>)"

section \<open>The supplemental page table and the frame table\<close>

subsection \<open>\<^verbatim>\<open>vm/page.c\<close>: lookup, creation, write-back\<close>

definition uvaddr_to_spt_entry :: "vm_state \<Rightarrow> addr \<Rightarrow> spte_ptr option" where
  "uvaddr_to_spt_entry s uvaddr = hash_find s (cur s) (pg_round_down uvaddr)"

text \<open>
  Modelled from the spec: the kernel heap (\<^verbatim>\<open>threads/malloc.c\<close> is not among the sources)
  hands out a fresh address at every request and does not run out, and a freed object
  keeps its contents.

  \<^verbatim>\<open>create_spte\<close> takes a fresh object and initialises five fields; the other fields keep
  what the memory held.
\<close>

definition create_spte :: "vm_state \<Rightarrow> spte_ptr \<times> vm_state" where
  "create_spte s =
     (let p = next_spte s
      in (p, s\<lparr>next_spte := Suc p,
                sptes := (sptes s)(p := (sptes s p)
                  \<lparr>frame := None, upage := 0, is_in_swap := False,
                   idx := BITMAP_ERROR, pinned := False\<rparr>)\<rparr>))"

definition create_spte_code :: "addr \<Rightarrow> vm_state \<Rightarrow> spte_ptr \<times> vm_state" where
  "create_spte_code up s =
     (case create_spte s of
        (p, s1) \<Rightarrow>
          (p, hash_insert (cur s1) p
                (s1\<lparr>sptes := (sptes s1)(p := (sptes s1 p)\<lparr>type := CODE, upage := up\<rparr>)\<rparr>)))"

definition write_to_disk :: "vm_state \<Rightarrow> spte_ptr \<Rightarrow> bool" where
  "write_to_disk s p =
     (let sp = sptes s p
      in if pagedir_is_dirty s (cur s) (upage sp) then
           (if file_write_at s (spte_file sp) (page_read_bytes sp) (ofs sp) \<noteq> page_read_bytes sp
            then False else True)
         else True)"

subsection \<open>\<^verbatim>\<open>vm/frame.c\<close>: victim selection\<close>

text \<open>
  The three loops of \<^verbatim>\<open>get_victim_frame\<close> walk the frame list, which none of them
  changes; each is a recursion over the list as it is on entry.
\<close>

fun get_victim_phase1 ::
  "frame_table_entry list \<Rightarrow> vm_state \<Rightarrow> frame_table_entry option \<times> vm_state" where
  "get_victim_phase1 [] s = (None, s)"
| "get_victim_phase1 (fte # es) s =
     (let sp = sptes s (fte_spte fte);
          is_dirty = pagedir_is_dirty s (fte_t fte) (upage sp);
          is_accessed = pagedir_is_accessed s (fte_t fte) (upage sp)
      in if \<not> pinned sp then
           (if type sp \<noteq> CODE then
              (if is_dirty then
                 (if write_to_disk s (fte_spte fte)
                  then get_victim_phase1 es (pagedir_set_dirty (fte_t fte) (upage sp) False s)
                  else get_victim_phase1 es s)
               else if \<not> is_accessed then (Some fte, s)
               else get_victim_phase1 es s)
            else
              (if \<not> is_dirty \<and> \<not> is_accessed then (Some fte, s)
               else get_victim_phase1 es s))
         else get_victim_phase1 es s)"

fun get_victim_phase2 ::
  "frame_table_entry list \<Rightarrow> vm_state \<Rightarrow> frame_table_entry option \<times> vm_state" where
  "get_victim_phase2 [] s = (None, s)"
| "get_victim_phase2 (fte # es) s =
     (let sp = sptes s (fte_spte fte);
          is_dirty = pagedir_is_dirty s (fte_t fte) (upage sp);
          is_accessed = pagedir_is_accessed s (fte_t fte) (upage sp)
      in if \<not> pinned sp then
           (if (\<not> is_dirty \<or> type sp = CODE) \<and> \<not> is_accessed then (Some fte, s)
            else get_victim_phase2 es (pagedir_set_accessed (fte_t fte) (upage sp) False s))
         else get_victim_phase2 es s)"

fun get_victim_phase3 ::
  "frame_table_entry list \<Rightarrow> vm_state \<Rightarrow> frame_table_entry option" where
  "get_victim_phase3 [] s = None"
| "get_victim_phase3 (fte # es) s =
     (if \<not> pinned (sptes s (fte_spte fte)) then Some fte else get_victim_phase3 es s)"

definition get_victim_frame ::
  "vm_state \<Rightarrow> error + (frame_table_entry option \<times> vm_state)" where
  "get_victim_frame s =
     (case get_victim_phase1 (frame_table s) s of
        (Some fte, s1) \<Rightarrow> Inr (Some fte, s1)
      | (None, s1) \<Rightarrow>
          (case get_victim_phase2 (frame_table s1) s1 of
             (Some fte, s2) \<Rightarrow> Inr (Some fte, s2)
           | (None, s2) \<Rightarrow>
               if frame_table s2 = [] then Inl (Panic ''assertion !list_empty (&frame_table)'')
               else Inr (get_victim_phase3 (frame_table s2) s2, s2)))"

subsection \<open>\<^verbatim>\<open>vm/frame.c\<close>: eviction\<close>

definition clear_frame_entry :: "frame_table_entry \<Rightarrow> vm_state \<Rightarrow> vm_state" where
  "clear_frame_entry fte s =
     (let s1 = s\<lparr>frame_table := remove1 fte (frame_table s)\<rparr>;
          s2 = pagedir_clear_page (fte_t fte) (upage (sptes s1 (fte_spte fte))) s1
      in palloc_free_page (fte_frame fte) s2)"

text \<open>The statements under the label \<^verbatim>\<open>case CODE:\<close>, which \<^verbatim>\<open>case FILE:\<close> falls into.\<close>

definition evict_frame_CODE ::
  "frame_table_entry \<Rightarrow> vm_state \<Rightarrow> error + (bool \<times> vm_state)" where
  "evict_frame_CODE fte s =
     (let p = fte_spte fte
      in if frame (sptes s p) = None then Inl (Panic ''assertion spte->frame != NULL'')
         else
           (case swap_out p s of
              (i, s1) \<Rightarrow>
                if i = BITMAP_ERROR then Inl (Panic ''Not able to swap out'')
                else
                  Inr (True, clear_frame_entry fte
                         (s1\<lparr>sptes := (sptes s1)(p := (sptes s1 p)
                                \<lparr>idx := i, is_in_swap := True, frame := None\<rparr>)\<rparr>))))"

definition evict_frame ::
  "frame_table_entry \<Rightarrow> vm_state \<Rightarrow> error + (bool \<times> vm_state)" where
  "evict_frame fte s =
     (let p = fte_spte fte
      in case type (sptes s p) of
           MMAP \<Rightarrow>
             if pagedir_is_dirty s (fte_t fte) (upage (sptes s p)) \<and> \<not> write_to_disk s p
             then Inl (Panic ''Not able to write out'')
             else Inr (True, clear_frame_entry fte
                         (s\<lparr>sptes := (sptes s)(p := (sptes s p)\<lparr>frame := None\<rparr>)\<rparr>))
         | FILE \<Rightarrow>
             evict_frame_CODE fte (s\<lparr>sptes := (sptes s)(p := (sptes s p)\<lparr>type := CODE\<rparr>)\<rparr>)
         | CODE \<Rightarrow> evict_frame_CODE fte s)"

subsection \<open>What victim selection and eviction leave alone\<close>

lemma update_pte_pagedir_only: "\<exists>pd. update_pte t va f s = s\<lparr>pagedir := pd\<rparr>"
proof (cases "lookup_page s t va")
  case None
  then have "update_pte t va f s = s\<lparr>pagedir := pagedir s\<rparr>"
    by (simp add: update_pte_def)
  then show ?thesis by blast
next
  case (Some e)
  then have "update_pte t va f s =
      s\<lparr>pagedir := (pagedir s)(t := (pagedir s t)(pg_round_down va := Some (f e)))\<rparr>"
    by (simp add: update_pte_def)
  then show ?thesis by blast
qed

lemma get_victim_phase1_pagedir_only:
  "get_victim_phase1 es s = (r, s') \<Longrightarrow> \<exists>pd. s' = s\<lparr>pagedir := pd\<rparr>"
proof (induction es arbitrary: s)
  case Nil
  then have "s' = s\<lparr>pagedir := pagedir s\<rparr>" by simp
  then show ?case by blast
next
  case (Cons fte es)
  have same: "\<exists>pd. s = s\<lparr>pagedir := pd\<rparr>"
    by (rule exI [of _ "pagedir s"]) simp
  let ?s1 = "pagedir_set_dirty (fte_t fte) (upage (sptes s (fte_spte fte))) False s"
  obtain pd1 where s1: "?s1 = s\<lparr>pagedir := pd1\<rparr>"
    using update_pte_pagedir_only unfolding pagedir_set_dirty_def by blast
  from Cons.prems consider
      (stop) "s' = s"
    | (next0) "get_victim_phase1 es s = (r, s')"
    | (next1) "get_victim_phase1 es ?s1 = (r, s')"
    by (auto simp: Let_def split: if_splits)
  then show ?case
  proof cases
    case stop
    with same show ?thesis by simp
  next
    case next0
    then show ?thesis by (rule Cons.IH)
  next
    case next1
    then obtain pd where "s' = ?s1\<lparr>pagedir := pd\<rparr>"
      using Cons.IH by blast
    with s1 have "s' = s\<lparr>pagedir := pd\<rparr>" by simp
    then show ?thesis by blast
  qed
qed

lemma get_victim_phase2_pagedir_only:
  "get_victim_phase2 es s = (r, s') \<Longrightarrow> \<exists>pd. s' = s\<lparr>pagedir := pd\<rparr>"
proof (induction es arbitrary: s)
  case Nil
  then have "s' = s\<lparr>pagedir := pagedir s\<rparr>" by simp
  then show ?case by blast
next
  case (Cons fte es)
  have same: "\<exists>pd. s = s\<lparr>pagedir := pd\<rparr>"
    by (rule exI [of _ "pagedir s"]) simp
  let ?s1 = "pagedir_set_accessed (fte_t fte) (upage (sptes s (fte_spte fte))) False s"
  obtain pd1 where s1: "?s1 = s\<lparr>pagedir := pd1\<rparr>"
    using update_pte_pagedir_only unfolding pagedir_set_accessed_def by blast
  from Cons.prems consider
      (stop) "s' = s"
    | (next0) "get_victim_phase2 es s = (r, s')"
    | (next1) "get_victim_phase2 es ?s1 = (r, s')"
    by (auto simp: Let_def split: if_splits)
  then show ?case
  proof cases
    case stop
    with same show ?thesis by simp
  next
    case next0
    then show ?thesis by (rule Cons.IH)
  next
    case next1
    then obtain pd where "s' = ?s1\<lparr>pagedir := pd\<rparr>"
      using Cons.IH by blast
    with s1 have "s' = s\<lparr>pagedir := pd\<rparr>" by simp
    then show ?thesis by blast
  qed
qed

lemma get_victim_frame_pagedir_only:
  assumes "get_victim_frame s = Inr (r, s')"
  shows "\<exists>pd. s' = s\<lparr>pagedir := pd\<rparr>"
proof -
  obtain r1 s1 where p1: "get_victim_phase1 (frame_table s) s = (r1, s1)"
    by (cases "get_victim_phase1 (frame_table s) s")
  obtain pd1 where s1: "s1 = s\<lparr>pagedir := pd1\<rparr>"
    using get_victim_phase1_pagedir_only [OF p1] by blast
  obtain r2 s2 where p2: "get_victim_phase2 (frame_table s1) s1 = (r2, s2)"
    by (cases "get_victim_phase2 (frame_table s1) s1")
  obtain pd2 where s2: "s2 = s1\<lparr>pagedir := pd2\<rparr>"
    using get_victim_phase2_pagedir_only [OF p2] by blast
  from assms p1 p2 have "s' = s1 \<or> s' = s2"
    by (auto simp: get_victim_frame_def split: option.splits if_splits)
  with s1 s2 show ?thesis by auto
qed

lemma update_pte_fields [simp]:
  "cur (update_pte t va f s) = cur s"
  "sptes (update_pte t va f s) = sptes s"
  "next_spte (update_pte t va f s) = next_spte s"
  "supp_page_table (update_pte t va f s) = supp_page_table s"
  "frame_table (update_pte t va f s) = frame_table s"
  "user_pool (update_pte t va f s) = user_pool s"
  "kernel_pool (update_pte t va f s) = kernel_pool s"
  "user_pool_base (update_pte t va f s) = user_pool_base s"
  "swap_map (update_pte t va f s) = swap_map s"
  "files (update_pte t va f s) = files s"
  "fd_table (update_pte t va f s) = fd_table s"
  "umem (update_pte t va f s) = umem s"
  by (simp_all add: update_pte_def split: option.split)

lemma palloc_free_page_fields [simp]:
  "cur (palloc_free_page k s) = cur s"
  "sptes (palloc_free_page k s) = sptes s"
  "next_spte (palloc_free_page k s) = next_spte s"
  "supp_page_table (palloc_free_page k s) = supp_page_table s"
  "frame_table (palloc_free_page k s) = frame_table s"
  "pagedir (palloc_free_page k s) = pagedir s"
  "user_pool_base (palloc_free_page k s) = user_pool_base s"
  "swap_map (palloc_free_page k s) = swap_map s"
  "files (palloc_free_page k s) = files s"
  "fd_table (palloc_free_page k s) = fd_table s"
  "umem (palloc_free_page k s) = umem s"
  by (simp_all add: palloc_free_page_def split: option.split)

lemma palloc_get_page_fields:
  assumes "palloc_get_page flags s = Inr (r, s')"
  shows "cur s' = cur s" "sptes s' = sptes s" "next_spte s' = next_spte s"
    "supp_page_table s' = supp_page_table s" "frame_table s' = frame_table s"
    "pagedir s' = pagedir s" "user_pool_base s' = user_pool_base s"
    "swap_map s' = swap_map s" "files s' = files s" "fd_table s' = fd_table s"
    "umem s' = umem s"
  using assms by (auto simp: palloc_get_page_def split: if_splits list.splits)

lemma clear_frame_entry_fields [simp]:
  "cur (clear_frame_entry fte s) = cur s"
  "sptes (clear_frame_entry fte s) = sptes s"
  "next_spte (clear_frame_entry fte s) = next_spte s"
  "supp_page_table (clear_frame_entry fte s) = supp_page_table s"
  "frame_table (clear_frame_entry fte s) = remove1 fte (frame_table s)"
  "user_pool_base (clear_frame_entry fte s) = user_pool_base s"
  "swap_map (clear_frame_entry fte s) = swap_map s"
  "files (clear_frame_entry fte s) = files s"
  "fd_table (clear_frame_entry fte s) = fd_table s"
  "umem (clear_frame_entry fte s) = umem s"
  by (simp_all add: clear_frame_entry_def Let_def pagedir_clear_page_def)

lemma swap_out_fields:
  assumes "swap_out p s = (i, s')"
  shows "cur s' = cur s" "sptes s' = sptes s" "next_spte s' = next_spte s"
    "supp_page_table s' = supp_page_table s" "frame_table s' = frame_table s"
    "pagedir s' = pagedir s" "user_pool s' = user_pool s" "kernel_pool s' = kernel_pool s"
    "user_pool_base s' = user_pool_base s" "files s' = files s" "fd_table s' = fd_table s"
    "umem s' = umem s"
  using assms by (auto simp: swap_out_def split: option.splits)

lemma evict_frame_CODE_frame_table:
  "evict_frame_CODE fte s = Inr (b, s') \<Longrightarrow> frame_table s' = remove1 fte (frame_table s)"
  by (auto simp: evict_frame_CODE_def Let_def swap_out_fields split: if_splits prod.splits)

lemma evict_frame_frame_table:
  "evict_frame fte s = Inr (b, s') \<Longrightarrow> frame_table s' = remove1 fte (frame_table s)"
  by (auto simp: evict_frame_def Let_def dest!: evict_frame_CODE_frame_table
      split: spte_type.splits if_splits)

lemma get_victim_phase1_Cons:
  "get_victim_phase1 (e # es) s = (r, s') \<Longrightarrow>
     (r = Some e \<and> s' = s \<and> \<not> pinned (sptes s (fte_spte e)) \<and>
        \<not> pagedir_is_dirty s (fte_t e) (upage (sptes s (fte_spte e))) \<and>
        \<not> pagedir_is_accessed s (fte_t e) (upage (sptes s (fte_spte e)))) \<or>
     get_victim_phase1 es s = (r, s') \<or>
     get_victim_phase1 es
       (pagedir_set_dirty (fte_t e) (upage (sptes s (fte_spte e))) False s) = (r, s')"
  by (simp add: Let_def split: if_splits)

lemma get_victim_phase2_Cons:
  "get_victim_phase2 (e # es) s = (r, s') \<Longrightarrow>
     (r = Some e \<and> s' = s \<and> \<not> pinned (sptes s (fte_spte e)) \<and>
        \<not> pagedir_is_accessed s (fte_t e) (upage (sptes s (fte_spte e))) \<and>
        (\<not> pagedir_is_dirty s (fte_t e) (upage (sptes s (fte_spte e))) \<or>
         type (sptes s (fte_spte e)) = CODE)) \<or>
     get_victim_phase2 es s = (r, s') \<or>
     get_victim_phase2 es
       (pagedir_set_accessed (fte_t e) (upage (sptes s (fte_spte e))) False s) = (r, s')"
  by (simp add: Let_def split: if_splits)

lemma get_victim_phase1_sound:
  "get_victim_phase1 es s = (Some fte, s') \<Longrightarrow>
     fte \<in> set es \<and> \<not> pinned (sptes s' (fte_spte fte)) \<and>
     \<not> pagedir_is_dirty s' (fte_t fte) (upage (sptes s' (fte_spte fte))) \<and>
     \<not> pagedir_is_accessed s' (fte_t fte) (upage (sptes s' (fte_spte fte)))"
proof (induction es arbitrary: s)
  case Nil
  then show ?case by simp
next
  case (Cons e es)
  from get_victim_phase1_Cons [OF Cons.prems] show ?case
  proof (elim disjE conjE)
    assume "Some fte = Some e" "s' = s" "\<not> pinned (sptes s (fte_spte e))"
      "\<not> pagedir_is_dirty s (fte_t e) (upage (sptes s (fte_spte e)))"
      "\<not> pagedir_is_accessed s (fte_t e) (upage (sptes s (fte_spte e)))"
    then show ?thesis by simp
  next
    assume "get_victim_phase1 es s = (Some fte, s')"
    from Cons.IH [OF this] show ?thesis by simp
  next
    assume "get_victim_phase1 es
      (pagedir_set_dirty (fte_t e) (upage (sptes s (fte_spte e))) False s) = (Some fte, s')"
    from Cons.IH [OF this] show ?thesis by simp
  qed
qed

lemma get_victim_phase2_sound:
  "get_victim_phase2 es s = (Some fte, s') \<Longrightarrow>
     fte \<in> set es \<and> \<not> pinned (sptes s' (fte_spte fte)) \<and>
     \<not> pagedir_is_accessed s' (fte_t fte) (upage (sptes s' (fte_spte fte))) \<and>
     (\<not> pagedir_is_dirty s' (fte_t fte) (upage (sptes s' (fte_spte fte))) \<or>
      type (sptes s' (fte_spte fte)) = CODE)"
proof (induction es arbitrary: s)
  case Nil
  then show ?case by simp
next
  case (Cons e es)
  from get_victim_phase2_Cons [OF Cons.prems] show ?case
  proof (elim disjE conjE)
    assume "Some fte = Some e" "s' = s" "\<not> pinned (sptes s (fte_spte e))"
      "\<not> pagedir_is_accessed s (fte_t e) (upage (sptes s (fte_spte e)))"
      "\<not> pagedir_is_dirty s (fte_t e) (upage (sptes s (fte_spte e)))"
    then show ?thesis by simp
  next
    assume "Some fte = Some e" "s' = s" "\<not> pinned (sptes s (fte_spte e))"
      "\<not> pagedir_is_accessed s (fte_t e) (upage (sptes s (fte_spte e)))"
      "type (sptes s (fte_spte e)) = CODE"
    then show ?thesis by simp
  next
    assume "get_victim_phase2 es s = (Some fte, s')"
    from Cons.IH [OF this] show ?thesis by simp
  next
    assume "get_victim_phase2 es
      (pagedir_set_accessed (fte_t e) (upage (sptes s (fte_spte e))) False s) = (Some fte, s')"
    from Cons.IH [OF this] show ?thesis by simp
  qed
qed

lemma get_victim_phase3_sound:
  "get_victim_phase3 es s = Some fte \<Longrightarrow>
     fte \<in> set es \<and> \<not> pinned (sptes s (fte_spte fte))"
  by (induction es) (auto split: if_splits)

lemma get_victim_frame_cases:
  assumes "get_victim_frame s = Inr (r, s')"
  obtains (one) "get_victim_phase1 (frame_table s) s = (r, s')" "r \<noteq> None"
  | (two) s1 where "get_victim_phase1 (frame_table s) s = (None, s1)"
      "get_victim_phase2 (frame_table s1) s1 = (r, s')" "r \<noteq> None"
  | (three) s1 where "get_victim_phase1 (frame_table s) s = (None, s1)"
      "get_victim_phase2 (frame_table s1) s1 = (None, s')"
      "frame_table s' \<noteq> []" "r = get_victim_phase3 (frame_table s') s'"
proof -
  obtain r1 s1 where p1: "get_victim_phase1 (frame_table s) s = (r1, s1)"
    by (cases "get_victim_phase1 (frame_table s) s")
  obtain r2 s2 where p2: "get_victim_phase2 (frame_table s1) s1 = (r2, s2)"
    by (cases "get_victim_phase2 (frame_table s1) s1")
  show thesis
  proof (cases r1)
    case (Some a)
    with assms p1 have "r = Some a" "s' = s1" by (simp_all add: get_victim_frame_def)
    with p1 Some show thesis by (intro one) simp_all
  next
    case None
    note r1 = this
    show thesis
    proof (cases r2)
      case (Some a)
      with assms p1 p2 r1 have "r = Some a" "s' = s2"
        by (simp_all add: get_victim_frame_def)
      with p1 p2 r1 Some show thesis by (intro two [of s1]) simp_all
    next
      case None
      with assms p1 p2 r1 have s2: "s2 = s'" and ne: "frame_table s2 \<noteq> []"
        and r: "r = get_victim_phase3 (frame_table s2) s2"
        by (auto simp: get_victim_frame_def split: if_splits)
      from p1 r1 have a: "get_victim_phase1 (frame_table s) s = (None, s1)" by simp
      from p2 None s2 have b: "get_victim_phase2 (frame_table s1) s1 = (None, s')" by simp
      from ne s2 have c: "frame_table s' \<noteq> []" by simp
      from r s2 have d: "r = get_victim_phase3 (frame_table s') s'" by simp
      from a b c d show thesis by (rule three)
    qed
  qed
qed

lemma get_victim_frame_sound:
  assumes "get_victim_frame s = Inr (Some fte, s')"
  shows "fte \<in> set (frame_table s) \<and> \<not> pinned (sptes s' (fte_spte fte))"
  using assms
proof (cases rule: get_victim_frame_cases)
  case one
  from get_victim_phase1_sound [OF one(1)] show ?thesis by simp
next
  case (two s1)
  from get_victim_phase1_pagedir_only [OF two(1)] have "frame_table s1 = frame_table s"
    by auto
  with get_victim_phase2_sound [OF two(2)] show ?thesis by simp
next
  case (three s1)
  from get_victim_phase1_pagedir_only [OF three(1)] have "frame_table s1 = frame_table s"
    by auto
  moreover from get_victim_phase2_pagedir_only [OF three(2)]
  have "frame_table s' = frame_table s1" by auto
  ultimately show ?thesis
    using get_victim_phase3_sound [of "frame_table s'" s' fte] three(4) by simp
qed

subsection \<open>\<^verbatim>\<open>vm/frame.c\<close>: allocation\<close>

text \<open>
  The condition \<^verbatim>\<open>flags & PAL_USER == 0\<close> of \<^verbatim>\<open>get_frame_for_page\<close> and \<^verbatim>\<open>frame_alloc\<close>:
  \<^verbatim>\<open>==\<close> binds tighter than \<^verbatim>\<open>&\<close>, so the flags are masked with the truth value of
  \<^verbatim>\<open>PAL_USER == 0\<close>.
\<close>

definition user_flag_guard :: "32 word \<Rightarrow> bool" where
  "user_flag_guard flags = (flags AND (if PAL_USER = 0 then 1 else 0) \<noteq> 0)"

text \<open>The \<^verbatim>\<open>do ... while (frame == NULL)\<close> loop of \<^verbatim>\<open>frame_alloc\<close>.\<close>

function frame_alloc_loop :: "32 word \<Rightarrow> vm_state \<Rightarrow> error + (addr \<times> vm_state)" where
  "frame_alloc_loop flags s =
     (if frame_table s = []
      then Inl (Panic ''palloc_get_page returned NULL when frame table empty.'')
      else
        (case get_victim_frame s of
           Inl e \<Rightarrow> Inl e
         | Inr (None, s1) \<Rightarrow> Inl (Panic ''assertion fte != NULL'')
         | Inr (Some fte, s1) \<Rightarrow>
             if fte_frame fte = None then Inl (Panic ''assertion fte->frame != NULL'')
             else if frame (sptes s1 (fte_spte fte)) = None
             then Inl (Panic ''assertion fte->spte->frame != NULL'')
             else
               (case evict_frame fte s1 of
                  Inl e \<Rightarrow> Inl e
                | Inr (evicted, s2) \<Rightarrow>
                    if evicted then
                      (case palloc_get_page flags s2 of
                         Inl e \<Rightarrow> Inl e
                       | Inr (Some k, s3) \<Rightarrow> Inr (k, s3)
                       | Inr (None, s3) \<Rightarrow> frame_alloc_loop flags s3)
                    else Inl (Panic ''Not able to evict. ''))))"
  by pat_completeness auto
termination
proof (relation "measure (\<lambda>(flags, s). length (frame_table s))")
  show "wf (measure (\<lambda>(flags, s). length (frame_table s)))" by simp
next
  fix flags :: "32 word" and s s1 s2 s3 :: vm_state
    and x2 :: "frame_table_entry option \<times> vm_state"
    and x1 :: "frame_table_entry option" and fte :: frame_table_entry
    and y2 :: "bool \<times> vm_state" and evicted :: bool
    and z2 :: "addr option \<times> vm_state" and z1 :: "addr option"
  assume v: "get_victim_frame s = Inr x2" "(x1, s1) = x2" "x1 = Some fte"
    and e: "evict_frame fte s1 = Inr y2" "(evicted, s2) = y2"
    and p: "palloc_get_page flags s2 = Inr z2" "(z1, s3) = z2"
  from v have vf: "get_victim_frame s = Inr (Some fte, s1)" by simp
  from get_victim_frame_sound [OF vf] have mem: "fte \<in> set (frame_table s)" by simp
  from get_victim_frame_pagedir_only [OF vf] have ft1: "frame_table s1 = frame_table s" by auto
  from e have "frame_table s2 = remove1 fte (frame_table s1)"
    using evict_frame_frame_table [of fte s1 evicted s2] by simp
  moreover from p have "frame_table s3 = frame_table s2"
    using palloc_get_page_fields(5) [of flags s2 z1 s3] by simp
  moreover from mem have "0 < length (frame_table s)" by (rule length_pos_if_in_set)
  ultimately have "length (frame_table s3) < length (frame_table s)"
    using mem ft1 by (simp add: length_remove1)
  then show "((flags, s3), (flags, s)) \<in> measure (\<lambda>(flags, s). length (frame_table s))"
    by simp
qed

declare frame_alloc_loop.simps [simp del]

definition frame_alloc :: "32 word \<Rightarrow> vm_state \<Rightarrow> error + (addr option \<times> vm_state)" where
  "frame_alloc flags s =
     (if user_flag_guard flags then Inr (None, s)
      else
        (case palloc_get_page flags s of
           Inl e \<Rightarrow> Inl e
         | Inr (Some k, s1) \<Rightarrow> Inr (Some k, s1)
         | Inr (None, s1) \<Rightarrow>
             (case frame_alloc_loop flags s1 of
                Inl e \<Rightarrow> Inl e
              | Inr (k, s2) \<Rightarrow> Inr (Some k, s2))))"

text \<open>
  \<^verbatim>\<open>add_to_frame_table\<close>; its assertion on the range of \<^verbatim>\<open>type\<close> holds for every value of
  \<open>spte_type\<close>.
\<close>

definition add_to_frame_table :: "addr \<Rightarrow> spte_ptr \<Rightarrow> vm_state \<Rightarrow> vm_state" where
  "add_to_frame_table k p s =
     s\<lparr>frame_table := frame_table s @ [\<lparr>fte_frame = Some k, fte_spte = p, fte_t = cur s\<rparr>]\<rparr>"

definition get_frame_for_page ::
  "32 word \<Rightarrow> spte_ptr option \<Rightarrow> vm_state \<Rightarrow> error + (addr option \<times> vm_state)" where
  "get_frame_for_page flags spte s =
     (case spte of
        None \<Rightarrow> Inr (None, s)
      | Some p \<Rightarrow>
          if user_flag_guard flags then Inr (None, s)
          else
            (case frame_alloc flags s of
               Inl e \<Rightarrow> Inl e
             | Inr (Some k, s1) \<Rightarrow> Inr (Some k, add_to_frame_table k p s1)
             | Inr (None, s1) \<Rightarrow> Inl (Panic ''Not able to get frame'')))"

fun free_frame_loop :: "addr \<Rightarrow> frame_table_entry list \<Rightarrow> frame_table_entry list" where
  "free_frame_loop k [] = []"
| "free_frame_loop k (fte # es) =
     (if fte_frame fte = Some k then es else fte # free_frame_loop k es)"

definition free_frame :: "addr \<Rightarrow> vm_state \<Rightarrow> vm_state" where
  "free_frame k s =
     palloc_free_page (Some k) (s\<lparr>frame_table := free_frame_loop k (frame_table s)\<rparr>)"

subsection \<open>\<^verbatim>\<open>vm/page.c\<close>: loading\<close>

definition install_load_file :: "spte_ptr \<Rightarrow> vm_state \<Rightarrow> error + (bool \<times> vm_state)" where
  "install_load_file p s =
     (case get_frame_for_page PAL_USER (Some p) s of
        Inl e \<Rightarrow> Inl e
      | Inr (None, s1) \<Rightarrow> Inl (Panic ''assertion frame != NULL'')
      | Inr (Some k, s1) \<Rightarrow>
          (case file_read (spte_file (sptes s1 p)) (page_read_bytes (sptes s1 p))
                  (file_seek (spte_file (sptes s1 p)) (ofs (sptes s1 p)) s1) of
             (read_bytes, s2) \<Rightarrow>
               if read_bytes \<noteq> page_read_bytes (sptes s2 p) then Inr (False, free_frame k s2)
               else
                 (case install_page (upage (sptes s2 p)) k (writable (sptes s2 p)) s2 of
                    (False, s3) \<Rightarrow> Inr (False, free_frame k s3)
                  | (True, s3) \<Rightarrow>
                      Inr (True, s3\<lparr>sptes := (sptes s3)(p := (sptes s3 p)\<lparr>frame := Some k\<rparr>)\<rparr>))))"

definition install_load_mmap :: "spte_ptr \<Rightarrow> vm_state \<Rightarrow> error + (bool \<times> vm_state)" where
  "install_load_mmap p s = install_load_file p s"

definition install_load_swap :: "spte_ptr \<Rightarrow> vm_state \<Rightarrow> error + (bool \<times> vm_state)" where
  "install_load_swap p s =
     (case get_frame_for_page (PAL_USER OR PAL_ZERO) (Some p) s of
        Inl e \<Rightarrow> Inl e
      | Inr (None, s1) \<Rightarrow> Inl (Panic ''assertion frame != NULL'')
      | Inr (Some k, s1) \<Rightarrow>
          (case install_page (upage (sptes s1 p)) k True s1 of
             (True, s2) \<Rightarrow>
               (let s3 = s2\<lparr>sptes := (sptes s2)(p := (sptes s2 p)\<lparr>frame := Some k\<rparr>)\<rparr>
                in if is_in_swap (sptes s3 p) then
                     (let s4 = swap_in p s3
                      in Inr (True, s4\<lparr>sptes := (sptes s4)(p := (sptes s4 p)
                                  \<lparr>is_in_swap := False, idx := BITMAP_ERROR\<rparr>)\<rparr>))
                   else Inr (True, s3))
           | (False, s2) \<Rightarrow> Inr (False, free_frame k s2)))"

definition install_load_page :: "spte_ptr \<Rightarrow> vm_state \<Rightarrow> error + (bool \<times> vm_state)" where
  "install_load_page p s =
     (case type (sptes s p) of
        FILE \<Rightarrow> install_load_file p s
      | MMAP \<Rightarrow> install_load_mmap p s
      | CODE \<Rightarrow> install_load_swap p s)"

subsection \<open>\<^verbatim>\<open>vm/page.c\<close>: release\<close>

text \<open>
  \<^verbatim>\<open>free_spte\<close>. The call of \<^verbatim>\<open>write_to_disk\<close> for a resident \<^verbatim>\<open>MMAP\<close> or writable \<^verbatim>\<open>FILE\<close>
  entry changes no field of the state and its result is dropped, so it leaves no trace
  here. No statement of the function names the swap device.
\<close>

definition free_spte :: "spte_ptr option \<Rightarrow> vm_state \<Rightarrow> vm_state" where
  "free_spte spte s =
     (case spte of
        None \<Rightarrow> s
      | Some p \<Rightarrow>
          (let s1 = (case frame (sptes s p) of
                       None \<Rightarrow> s
                     | Some k \<Rightarrow> free_frame k (pagedir_clear_page (cur s) (upage (sptes s p)) s))
           in hash_delete (cur s1) p s1))"

definition free_spte_elem :: "spte_ptr \<Rightarrow> vm_state \<Rightarrow> vm_state" where
  "free_spte_elem e s = free_spte (Some e) s"

lemma free_frame_fields [simp]:
  "cur (free_frame k s) = cur s"
  "sptes (free_frame k s) = sptes s"
  "next_spte (free_frame k s) = next_spte s"
  "supp_page_table (free_frame k s) = supp_page_table s"
  "frame_table (free_frame k s) = free_frame_loop k (frame_table s)"
  "pagedir (free_frame k s) = pagedir s"
  "user_pool_base (free_frame k s) = user_pool_base s"
  "swap_map (free_frame k s) = swap_map s"
  "files (free_frame k s) = files s"
  "fd_table (free_frame k s) = fd_table s"
  "umem (free_frame k s) = umem s"
  by (simp_all add: free_frame_def)

lemma hash_delete_fields [simp]:
  "cur (hash_delete t p s) = cur s"
  "sptes (hash_delete t p s) = sptes s"
  "next_spte (hash_delete t p s) = next_spte s"
  "frame_table (hash_delete t p s) = frame_table s"
  "pagedir (hash_delete t p s) = pagedir s"
  "user_pool (hash_delete t p s) = user_pool s"
  "kernel_pool (hash_delete t p s) = kernel_pool s"
  "user_pool_base (hash_delete t p s) = user_pool_base s"
  "swap_map (hash_delete t p s) = swap_map s"
  "files (hash_delete t p s) = files s"
  "fd_table (hash_delete t p s) = fd_table s"
  "umem (hash_delete t p s) = umem s"
  by (simp_all add: hash_delete_def split: option.split)

lemma hash_delete_length:
  "length (supp_page_table (hash_delete t p s) h) \<le> length (supp_page_table s h)"
  by (simp add: hash_delete_def length_remove1 split: option.split)

lemma free_spte_cur [simp]: "cur (free_spte spte s) = cur s"
  by (simp add: free_spte_def Let_def pagedir_clear_page_def split: option.split)

lemma free_spte_swap_map [simp]: "swap_map (free_spte spte s) = swap_map s"
  by (simp add: free_spte_def Let_def pagedir_clear_page_def split: option.split)

lemma free_spte_length:
  "length (supp_page_table (free_spte spte s) h) \<le> length (supp_page_table s h)"
proof (cases spte)
  case None
  then show ?thesis by (simp add: free_spte_def)
next
  case (Some p)
  show ?thesis
  proof (cases "frame (sptes s p)")
    case None
    with Some show ?thesis by (simp add: free_spte_def hash_delete_length)
  next
    case (Some k)
    let ?s1 = "free_frame k (pagedir_clear_page (cur s) (upage (sptes s p)) s)"
    have "supp_page_table ?s1 = supp_page_table s"
      by (simp add: pagedir_clear_page_def)
    moreover have "length (supp_page_table (hash_delete (cur ?s1) p ?s1) h)
        \<le> length (supp_page_table ?s1 h)"
      by (rule hash_delete_length)
    ultimately show ?thesis using Some \<open>spte = Some p\<close>
      by (simp add: free_spte_def)
  qed
qed

text \<open>
  \<^verbatim>\<open>hash_destroy\<close> with the destructor \<^verbatim>\<open>free_spte_elem\<close>: every element is taken out of
  the table and handed to the destructor, which itself calls \<^verbatim>\<open>hash_delete\<close> on the table
  of the current thread.
\<close>

function hash_clear :: "tid \<Rightarrow> vm_state \<Rightarrow> vm_state" where
  "hash_clear h s =
     (case supp_page_table s h of
        [] \<Rightarrow> s
      | e # es \<Rightarrow>
          hash_clear h
            (free_spte_elem e (s\<lparr>supp_page_table := (supp_page_table s)(h := es)\<rparr>)))"
  by pat_completeness auto
termination
proof (relation "measure (\<lambda>(h, s). length (supp_page_table s h))")
  show "wf (measure (\<lambda>(h, s). length (supp_page_table s h)))" by simp
next
  fix h :: tid and s :: vm_state and e :: spte_ptr and es :: "spte_ptr list"
  assume "supp_page_table s h = e # es"
  moreover have
    "length (supp_page_table
        (free_spte (Some e) (s\<lparr>supp_page_table := (supp_page_table s)(h := es)\<rparr>)) h)
      \<le> length (supp_page_table (s\<lparr>supp_page_table := (supp_page_table s)(h := es)\<rparr>) h)"
    by (rule free_spte_length)
  ultimately show
    "((h, free_spte_elem e (s\<lparr>supp_page_table := (supp_page_table s)(h := es)\<rparr>)), (h, s))
      \<in> measure (\<lambda>(h, s). length (supp_page_table s h))"
    by (simp add: free_spte_elem_def)
qed

declare hash_clear.simps [simp del]

definition destroy_spt :: "tid \<Rightarrow> vm_state \<Rightarrow> vm_state" where
  "destroy_spt h s = hash_clear h s"

subsection \<open>\<^verbatim>\<open>vm/page.c\<close>: memory-mapped files\<close>

text \<open>
  The loop of \<^verbatim>\<open>free_spte_mmap\<close> runs while \<^verbatim>\<open>read_bytes > 0\<close> and subtracts whatever the
  entry found at the page says; nothing bounds the number of rounds, so not returning is
  the value \<open>None\<close>. The entry returned by the lookup is dereferenced without a test.
\<close>

partial_function (option) free_spte_mmap_loop ::
  "spte_ptr \<Rightarrow> 32 word \<Rightarrow> addr \<Rightarrow> vm_state \<Rightarrow> (error + vm_state) option" where
  "free_spte_mmap_loop first_spte read_bytes up s =
     (if 0 < sint read_bytes then
        (case uvaddr_to_spt_entry s up of
           None \<Rightarrow> Some (Inl NullDeref)
         | Some spte \<Rightarrow>
             free_spte_mmap_loop first_spte
               (read_bytes - page_read_bytes (sptes s spte)) (up + PGSIZE)
               (if spte_file (sptes s spte) = spte_file (sptes s first_spte)
                then free_spte (Some spte) s else s))
      else Some (Inr s))"

declare free_spte_mmap_loop.simps [code]

definition free_spte_mmap :: "spte_ptr option \<Rightarrow> vm_state \<Rightarrow> (error + vm_state) option" where
  "free_spte_mmap first_spte s =
     (case first_spte of
        None \<Rightarrow> Some (Inr s)
      | Some first \<Rightarrow>
          free_spte_mmap_loop first (file_length s (spte_file (sptes s first)))
            (upage (sptes s first)) s)"

lemma sint_sub_page:
  fixes rb :: "32 word"
  assumes "0 < sint rb" "\<not> sint rb < sint PGSIZE"
  shows "sint (rb - PGSIZE) = sint rb - 4096"
proof -
  have p: "sint PGSIZE = 4096" by (simp add: PGSIZE_def)
  have ub: "sint rb < 2 ^ 31" using sint_lt [of rb] by simp
  have "sint (rb - PGSIZE) = signed_take_bit 31 (sint rb - sint PGSIZE)"
    by (simp add: sint_word_ariths)
  also have "\<dots> = sint rb - sint PGSIZE"
    using assms ub p by (intro signed_take_bit_int_eq_self) simp_all
  finally show ?thesis using p by simp
qed

text \<open>
  The loop of \<^verbatim>\<open>create_spte_mmap\<close>; \<open>i\<close> and \<open>first_spte\<close> are the two locals that remember
  the first entry. On a page that has an entry already, the entries made so far are handed
  to \<^verbatim>\<open>free_spte_mmap\<close>.
\<close>

function create_spte_mmap_loop ::
  "file_ptr \<Rightarrow> 32 word \<Rightarrow> addr \<Rightarrow> 32 word \<Rightarrow> 32 word \<Rightarrow> spte_ptr option \<Rightarrow> vm_state
     \<Rightarrow> (error + (spte_ptr option \<times> vm_state)) option" where
  "create_spte_mmap_loop f read_bytes up fofs i first_spte s =
     (if 0 < sint read_bytes then
        (let prb = (if sint read_bytes < sint PGSIZE then read_bytes else PGSIZE);
             pzb = PGSIZE - prb
         in case uvaddr_to_spt_entry s up of
              Some spte \<Rightarrow>
                (case free_spte_mmap first_spte s of
                   None \<Rightarrow> None
                 | Some (Inl e) \<Rightarrow> Some (Inl e)
                 | Some (Inr s1) \<Rightarrow> Some (Inr (None, s1)))
            | None \<Rightarrow>
                (case create_spte s of
                   (p, s1) \<Rightarrow>
                     (let s2 = s1\<lparr>sptes := (sptes s1)(p := (sptes s1 p)
                                  \<lparr>type := MMAP, upage := up, spte_file := f, ofs := fofs,
                                   page_read_bytes := prb, page_zero_bytes := pzb,
                                   writable := True\<rparr>)\<rparr>;
                          s3 = hash_insert (cur s2) p s2
                      in create_spte_mmap_loop f (read_bytes - prb) (up + PGSIZE) (fofs + prb)
                           (if i = 0 then i + 1 else i)
                           (if i = 0 then Some p else first_spte) s3)))
      else Some (Inr (first_spte, s)))"
  by pat_completeness auto
termination
proof (relation "measure (\<lambda>(f, read_bytes, up, fofs, i, first_spte, s). nat (sint read_bytes))")
  show "wf (measure (\<lambda>(f, read_bytes :: 32 word, up :: addr, fofs :: 32 word, i :: 32 word,
      first_spte :: spte_ptr option, s :: vm_state). nat (sint read_bytes)))"
    by simp
next
  fix f :: file_ptr and read_bytes up fofs i :: "32 word" and first_spte :: "spte_ptr option"
    and s s1 s2 s3 :: vm_state and prb pzb :: "32 word" and p :: spte_ptr
    and x :: "spte_ptr \<times> vm_state"
  assume pos: "0 < sint read_bytes"
    and prb: "prb = (if sint read_bytes < sint PGSIZE then read_bytes else PGSIZE)"
  have "sint (read_bytes - prb) < sint read_bytes"
  proof (cases "sint read_bytes < sint PGSIZE")
    case True
    with prb pos show ?thesis by simp
  next
    case False
    with prb sint_sub_page [OF pos False] show ?thesis by simp
  qed
  with pos show "((f, read_bytes - prb, up + PGSIZE, fofs + prb, if i = 0 then i + 1 else i,
        if i = 0 then Some p else first_spte, s3),
       (f, read_bytes, up, fofs, i, first_spte, s))
      \<in> measure (\<lambda>(f, read_bytes, up, fofs, i, first_spte, s). nat (sint read_bytes))"
    by simp
qed

declare create_spte_mmap_loop.simps [simp del]

definition create_spte_mmap ::
  "file_ptr \<Rightarrow> 32 word \<Rightarrow> addr \<Rightarrow> vm_state \<Rightarrow> (error + (spte_ptr option \<times> vm_state)) option" where
  "create_spte_mmap f read_bytes up s = create_spte_mmap_loop f read_bytes up 0 0 None s"

subsection \<open>\<^verbatim>\<open>vm/page.c\<close>: stack growth\<close>

definition grow_stack ::
  "vm_config \<Rightarrow> addr \<Rightarrow> bool \<Rightarrow> vm_state \<Rightarrow> error + (bool \<times> vm_state)" where
  "grow_stack cfg uaddr pin s =
     (let up = pg_round_down uaddr
      in if MAX_STACK_SIZE cfg < PHYS_BASE - uaddr then Inr (False, s)
         else
           (case create_spte_code up s of
              (spte, s1) \<Rightarrow>
                install_load_page spte
                  (s1\<lparr>sptes := (sptes s1)(spte := (sptes s1 spte)\<lparr>pinned := pin\<rparr>)\<rparr>)))"

section \<open>System calls: validation, pinning and \<^verbatim>\<open>read\<close>\<close>

text \<open>
  \<^verbatim>\<open>exit (NULL)\<close> ends the calling process with status \<open>-1\<close> and does not return; the
  teardown it runs is \<^verbatim>\<open>destroy_spt\<close> above.
\<close>

definition exit_NULL :: error where
  "exit_NULL = Exit (- 1)"

definition ptr_file :: "file_ptr option \<Rightarrow> file_ptr" where
  "ptr_file f = (case f of None \<Rightarrow> 0 | Some x \<Rightarrow> x)"

definition is_valid_fd :: "vm_config \<Rightarrow> 32 word \<Rightarrow> bool" where
  "is_valid_fd cfg fd = (0 \<le> sint fd \<and> sint fd < MAX_FILES cfg)"

definition valid_up :: "vm_config \<Rightarrow> addr \<Rightarrow> addr \<Rightarrow> vm_state \<Rightarrow> error + vm_state" where
  "valid_up cfg esp ptr s =
     (if ptr = 0 \<or> \<not> is_user_vaddr ptr then Inl exit_NULL
      else
        (case uvaddr_to_spt_entry s ptr of
           Some spte \<Rightarrow>
             (let s1 = s\<lparr>sptes := (sptes s)(spte := (sptes s spte)\<lparr>pinned := True\<rparr>)\<rparr>
              in if pagedir_get_page s1 (cur s1) ptr = None then
                   (case install_load_page spte s1 of
                      Inl e \<Rightarrow> Inl e
                    | Inr (loaded, s2) \<Rightarrow> if \<not> loaded then Inl exit_NULL else Inr s2)
                 else Inr s1)
         | None \<Rightarrow>
             if pagedir_get_page s (cur s) ptr = None then
               (if esp - STACK_HEURISTIC cfg \<le> ptr then
                  (case grow_stack cfg ptr True s of
                     Inl e \<Rightarrow> Inl e
                   | Inr (grown, s1) \<Rightarrow> if grown then Inr s1 else Inl exit_NULL)
                else Inl exit_NULL)
             else Inr s))"

text \<open>
  The loop \<^verbatim>\<open>for (i = PGSIZE; i < size; i += PGSIZE)\<close> of \<^verbatim>\<open>validate\<close> compares the counter
  with an unsigned size; for a size within a page of \<open>2^32\<close> the counter wraps before it
  reaches it.
\<close>

partial_function (option) validate_loop ::
  "vm_config \<Rightarrow> addr \<Rightarrow> addr \<Rightarrow> 32 word \<Rightarrow> 32 word \<Rightarrow> vm_state \<Rightarrow> (error + vm_state) option"
  where
  "validate_loop cfg esp ptr sz i s =
     (if i < sz then
        (case valid_up cfg esp (ptr + i) s of
           Inl e \<Rightarrow> Some (Inl e)
         | Inr s1 \<Rightarrow> validate_loop cfg esp ptr sz (i + PGSIZE) s1)
      else Some (Inr s))"

declare validate_loop.simps [code]

definition validate ::
  "vm_config \<Rightarrow> addr \<Rightarrow> addr \<Rightarrow> 32 word \<Rightarrow> vm_state \<Rightarrow> (error + vm_state) option" where
  "validate cfg esp ptr sz s =
     (case valid_up cfg esp ptr s of
        Inl e \<Rightarrow> Some (Inl e)
      | Inr s1 \<Rightarrow>
          (case (if sz \<noteq> 1 then valid_up cfg esp (ptr + sz - 1) s1 else Inr s1) of
             Inl e \<Rightarrow> Some (Inl e)
           | Inr s2 \<Rightarrow> validate_loop cfg esp ptr sz PGSIZE s2))"

definition is_writable :: "addr \<Rightarrow> vm_state \<Rightarrow> error + unit" where
  "is_writable ptr s =
     (case uvaddr_to_spt_entry s ptr of
        None \<Rightarrow> Inl NullDeref
      | Some spte \<Rightarrow>
          if type (sptes s spte) = FILE \<and> \<not> writable (sptes s spte) then Inl exit_NULL
          else Inr ())"

text \<open>The three statements \<^verbatim>\<open>unpin_buffer\<close> repeats for each address it visits.\<close>

definition unpin_addr :: "addr \<Rightarrow> vm_state \<Rightarrow> vm_state" where
  "unpin_addr va s =
     (case uvaddr_to_spt_entry s va of
        None \<Rightarrow> s
      | Some spte \<Rightarrow> s\<lparr>sptes := (sptes s)(spte := (sptes s spte)\<lparr>pinned := False\<rparr>)\<rparr>)"

partial_function (option) unpin_buffer_loop ::
  "addr \<Rightarrow> 32 word \<Rightarrow> 32 word \<Rightarrow> vm_state \<Rightarrow> vm_state option" where
  "unpin_buffer_loop buffer sz i s =
     (if i < sz then unpin_buffer_loop buffer sz (i + PGSIZE) (unpin_addr (buffer + i) s)
      else Some s)"

declare unpin_buffer_loop.simps [code]

definition unpin_buffer :: "addr \<Rightarrow> 32 word \<Rightarrow> vm_state \<Rightarrow> vm_state option" where
  "unpin_buffer buffer sz s =
     unpin_buffer_loop buffer sz PGSIZE
       (unpin_addr (buffer + sz - 1) (unpin_addr buffer s))"

text \<open>
  Sequencing of steps that may end the process, panic, or not return.
\<close>

definition then_do ::
  "(error + 'a) option \<Rightarrow> ('a \<Rightarrow> (error + 'b) option) \<Rightarrow> (error + 'b) option" where
  "then_do r f =
     (case r of None \<Rightarrow> None | Some (Inl e) \<Rightarrow> Some (Inl e) | Some (Inr x) \<Rightarrow> f x)"

text \<open>
  The system call \<^verbatim>\<open>read\<close>. The three arguments are fetched from the user stack after
  each has been validated; \<^verbatim>\<open>STDIN_FILENO\<close> is 0. Reading the keyboard stores \<open>size\<close>
  bytes; reading a file stores what \<^verbatim>\<open>file_read\<close> delivers. The only test of the
  destination is the call \<^verbatim>\<open>is_writable (buffer)\<close> in the file branch.
\<close>

definition read ::
  "vm_config \<Rightarrow> addr \<Rightarrow> vm_state \<Rightarrow> (error + (32 word \<times> vm_state)) option" where
  "read cfg esp s =
     then_do (validate cfg esp esp 4 s) (\<lambda>s1.
       let fd = umem s1 esp; esp1 = esp + 4 in
       then_do (validate cfg esp1 esp1 4 s1) (\<lambda>s2.
         let buffer = umem s2 esp1; esp2 = esp1 + 4 in
         then_do (validate cfg esp2 esp2 4 s2) (\<lambda>s3.
           let sz = umem s3 esp2; esp3 = esp2 + 4 in
           then_do (validate cfg esp3 buffer sz s3) (\<lambda>s4.
             then_do
               (if fd = 0 then Some (Inr (sz, s4))
                else if is_valid_fd cfg fd \<and> 2 \<le> sint fd
                        \<and> fd_table s4 (cur s4) (nat (sint fd)) \<noteq> None
                then
                  (case is_writable buffer s4 of
                     Inl e \<Rightarrow> Some (Inl e)
                   | Inr u \<Rightarrow>
                       Some (Inr (file_read (ptr_file (fd_table s4 (cur s4) (nat (sint fd))))
                                    sz s4)))
                else Some (Inr (0, s4)))
               (\<lambda>(ret, s5).
                  (case unpin_buffer buffer sz s5 of
                     None \<Rightarrow> None
                   | Some s6 \<Rightarrow> Some (Inr (ret, s6))))))))"

section \<open>Invariants used in the proofs\<close>

text \<open>
  What obtaining a frame, with the evictions it may take, leaves alone: the tables, the
  page of every entry, and every entry that is not resident.
\<close>

definition alloc_rel :: "vm_state \<Rightarrow> vm_state \<Rightarrow> bool" where
  "alloc_rel s s' \<longleftrightarrow>
     cur s' = cur s \<and> next_spte s' = next_spte s \<and> supp_page_table s' = supp_page_table s
     \<and> user_pool_base s' = user_pool_base s
     \<and> (\<forall>q. upage (sptes s' q) = upage (sptes s q))
     \<and> (\<forall>q. frame (sptes s q) = None \<longrightarrow> sptes s' q = sptes s q)"

text \<open>
  A well-formed frame table: no frame is recorded twice, no recorded frame is free in a
  pool, and the free pages of the user pool lie in the user pool's address range.
\<close>

definition ft_wf :: "vm_state \<Rightarrow> bool" where
  "ft_wf s \<longleftrightarrow>
     distinct (map fte_frame (frame_table s))
     \<and> (\<forall>fte\<in>set (frame_table s). \<forall>k. fte_frame fte = Some k \<longrightarrow>
           k \<notin> set (user_pool s) \<and> k \<notin> set (kernel_pool s))
     \<and> (\<forall>k\<in>set (user_pool s). user_pool_base s \<le> k)"

section \<open>Example states\<close>

text \<open>
  Small concrete states on which the functions are run below. Thread 1 is current; the
  kernel pool lies below \<open>0xC0200000\<close> and the user pool from there on.
\<close>

definition spte0 :: spt_entry where
  "spte0 = \<lparr>type = CODE, upage = 0, frame = None, pinned = False, is_in_swap = False,
     idx = BITMAP_ERROR, spte_file = 0, ofs = 0, writable = False, page_read_bytes = 0,
     page_zero_bytes = 0\<rparr>"

definition st0 :: vm_state where
  "st0 = \<lparr>cur = 1, sptes = (\<lambda>p. spte0), next_spte = 1, supp_page_table = (\<lambda>t. []),
     frame_table = [], pagedir = (\<lambda>t a. None), user_pool = [], kernel_pool = [],
     user_pool_base = 0xC0200000, swap_map = [],
     files = (\<lambda>f. \<lparr>flength = 0, fpos = 0, deny_write = False\<rparr>),
     fd_table = (\<lambda>t fd. None), umem = (\<lambda>a. 0)\<rparr>"

definition cfg0 :: vm_config where
  "cfg0 = \<lparr>MAX_STACK_SIZE = 0x800000, STACK_HEURISTIC = 32, MAX_FILES = 128\<rparr>"

text \<open>
  Two resident \<^verbatim>\<open>CODE\<close> pages of thread 1, neither pinned nor accessed; the first in the
  frame list is dirty, the second clean.
\<close>

definition fteA :: frame_table_entry where
  "fteA = \<lparr>fte_frame = Some 0xC0200000, fte_spte = 1, fte_t = 1\<rparr>"

definition fteB :: frame_table_entry where
  "fteB = \<lparr>fte_frame = Some 0xC0201000, fte_spte = 2, fte_t = 1\<rparr>"

definition st_two_code :: vm_state where
  "st_two_code = st0
     \<lparr>sptes := (\<lambda>p. spte0)
        (1 := spte0\<lparr>upage := 0x08048000, frame := Some 0xC0200000\<rparr>,
         2 := spte0\<lparr>upage := 0x08049000, frame := Some 0xC0201000\<rparr>),
      next_spte := 3,
      supp_page_table := (\<lambda>t. [])(1 := [2, 1]),
      frame_table := [fteA, fteB],
      pagedir := (\<lambda>t a. None)(1 := (\<lambda>a. None)
        (0x08048000 := Some ((pte_create_user 0xC0200000 True)\<lparr>pte_dirty := True\<rparr>),
         0x08049000 := Some (pte_create_user 0xC0201000 True)))\<rparr>"

text \<open>A process with one free user page and one free kernel page, and no page table.\<close>

definition st_grow :: vm_state where
  "st_grow = st0\<lparr>user_pool := [0xC0200000], kernel_pool := [0xC0100000]\<rparr>"

text \<open>
  A resident, clean page of a read-only executable (\<^verbatim>\<open>FILE\<close>) of thread 1, with a swap
  device of two slots whose first slot is taken.
\<close>

definition st_file :: vm_state where
  "st_file = st0
     \<lparr>sptes := (\<lambda>p. spte0)
        (1 := spte0\<lparr>type := FILE, upage := 0x08048000, frame := Some 0xC0200000,
                     spte_file := 3, page_read_bytes := 4096\<rparr>),
      next_spte := 2,
      supp_page_table := (\<lambda>t. [])(1 := [1]),
      frame_table := [fteA],
      pagedir := (\<lambda>t a. None)(1 := (\<lambda>a. None)
        (0x08048000 := Some (pte_create_user 0xC0200000 False))),
      swap_map := [Some 0xC0205000, None]\<rparr>"

text \<open>
  A process whose only page, an anonymous one, has been swapped out to slot 0 of a
  one-slot swap device.
\<close>

definition st_swapped :: vm_state where
  "st_swapped = st0
     \<lparr>sptes := (\<lambda>p. spte0)
        (1 := spte0\<lparr>upage := 0x08048000, is_in_swap := True, idx := 0\<rparr>),
      next_spte := 2,
      supp_page_table := (\<lambda>t. [])(1 := [1]),
      swap_map := [Some 0xC0200000]\<rparr>"

text \<open>The same process when the kernel pool has no page left for a page table.\<close>

definition st_grow_nopt :: vm_state where
  "st_grow_nopt = st0\<lparr>user_pool := [0xC0200000]\<rparr>"

text \<open>
  A process with one free user page whose executable page (\<^verbatim>\<open>FILE\<close>, 4096 bytes to read at
  offset 0) is backed by a file of only 100 bytes.
\<close>

definition st_short :: vm_state where
  "st_short = st0
     \<lparr>sptes := (\<lambda>p. spte0)
        (1 := spte0\<lparr>type := FILE, upage := 0x08048000, spte_file := 3,
                     page_read_bytes := 4096\<rparr>),
      next_spte := 2,
      supp_page_table := (\<lambda>t. [])(1 := [1]),
      user_pool := [0xC0200000],
      files := (\<lambda>f. \<lparr>flength = 0, fpos = 0, deny_write = False\<rparr>)
        (3 := \<lparr>flength = 100, fpos = 0, deny_write = False\<rparr>)\<rparr>"

text \<open>
  A process with one free user page, no page table and an empty kernel pool, whose stack
  page has an anonymous entry that is not resident.
\<close>

definition st_code_nopt :: vm_state where
  "st_code_nopt = st0
     \<lparr>sptes := (\<lambda>p. spte0)(1 := spte0\<lparr>upage := 0xBFFFF000\<rparr>),
      next_spte := 2,
      supp_page_table := (\<lambda>t. [])(1 := [1]),
      user_pool := [0xC0200000]\<rparr>"

text \<open>
  Variants of \<open>st_short\<close>: the file long enough for the read but no page table to be had
  (\<open>st_file_nopt\<close>); the page a memory-mapped one (\<open>st_mmap_short\<close>); and both
  (\<open>st_mmap_nopt\<close>).
\<close>

definition st_file_nopt :: vm_state where
  "st_file_nopt = st_short
     \<lparr>files := (\<lambda>f. \<lparr>flength = 0, fpos = 0, deny_write = False\<rparr>)
        (3 := \<lparr>flength = 8192, fpos = 0, deny_write = False\<rparr>)\<rparr>"

definition st_mmap_short :: vm_state where
  "st_mmap_short = st_short
     \<lparr>sptes := (\<lambda>p. spte0)
        (1 := spte0\<lparr>type := MMAP, upage := 0x10000000, spte_file := 3,
                     page_read_bytes := 4096, writable := True\<rparr>)\<rparr>"

definition st_mmap_nopt :: vm_state where
  "st_mmap_nopt = st_mmap_short
     \<lparr>files := (\<lambda>f. \<lparr>flength = 0, fpos = 0, deny_write = False\<rparr>)
        (3 := \<lparr>flength = 8192, fpos = 0, deny_write = False\<rparr>)\<rparr>"

text \<open>
  A process that is about to map the three-page file 5 at \<open>0x10000000\<close>: the second of
  the three target pages already belongs to a page of another file, the first and the
  third have no entry.
\<close>

definition st_mmap :: vm_state where
  "st_mmap = st0
     \<lparr>sptes := (\<lambda>p. spte0)
        (1 := spte0\<lparr>type := FILE, upage := 0x10001000, spte_file := 3,
                     page_read_bytes := 4096\<rparr>),
      next_spte := 2,
      supp_page_table := (\<lambda>t. [])(1 := [1]),
      files := (\<lambda>f. \<lparr>flength = 0, fpos = 0, deny_write = False\<rparr>)
        (5 := \<lparr>flength = 12288, fpos = 0, deny_write = False\<rparr>)\<rparr>"

text \<open>
  A process in the system call \<^verbatim>\<open>read (2, 0x08048FF0, 32)\<close>. Its stack page is mapped; the
  buffer starts in a resident anonymous page and ends in the next page, a resident page
  of the read-only executable; descriptor 2 is an open file of 100 bytes. In
  \<open>st_read_stdin\<close> the call is \<^verbatim>\<open>read (0, 0x08049000, 32)\<close> instead: the keyboard, into the
  read-only page itself.
\<close>

definition st_read :: vm_state where
  "st_read = st0
     \<lparr>sptes := (\<lambda>p. spte0)
        (1 := spte0\<lparr>upage := 0x08048000, frame := Some 0xC0200000\<rparr>,
         2 := spte0\<lparr>type := FILE, upage := 0x08049000, frame := Some 0xC0201000,
                     spte_file := 3, page_read_bytes := 4096, writable := False\<rparr>),
      next_spte := 3,
      supp_page_table := (\<lambda>t. [])(1 := [2, 1]),
      frame_table := [fteA, fteB],
      pagedir := (\<lambda>t a. None)(1 := (\<lambda>a. None)
        (0x08048000 := Some (pte_create_user 0xC0200000 True),
         0x08049000 := Some (pte_create_user 0xC0201000 False),
         0xBFFFF000 := Some (pte_create_user 0xC0202000 True))),
      files := (\<lambda>f. \<lparr>flength = 0, fpos = 0, deny_write = False\<rparr>)
        (7 := \<lparr>flength = 100, fpos = 0, deny_write = False\<rparr>),
      fd_table := (\<lambda>t fd. None)(1 := (\<lambda>fd. None)(2 := Some 7)),
      umem := (\<lambda>a. 0)(0xBFFFFF00 := 2, 0xBFFFFF04 := 0x08048FF0, 0xBFFFFF08 := 32)\<rparr>"

definition st_read_stdin :: vm_state where
  "st_read_stdin = st_read
     \<lparr>umem := (\<lambda>a. 0)(0xBFFFFF00 := 0, 0xBFFFFF04 := 0x08049000, 0xBFFFFF08 := 32)\<rparr>"

section \<open>Auxiliary facts\<close>

fun is_panic :: "error \<Rightarrow> bool" where
  "is_panic (Panic m) = True"
| "is_panic e = False"

lemma user_flag_guard_False: "\<not> user_flag_guard flags"
  by (simp add: user_flag_guard_def PAL_USER_def)

lemma palloc_get_page_Inl: "palloc_get_page flags s = Inl e \<Longrightarrow> is_panic e"
  by (auto simp: palloc_get_page_def split: if_splits list.splits)

lemma get_victim_frame_Inl: "get_victim_frame s = Inl e \<Longrightarrow> is_panic e"
  by (auto simp: get_victim_frame_def split: prod.splits option.splits if_splits)

lemma evict_frame_CODE_Inl: "evict_frame_CODE fte s = Inl e \<Longrightarrow> is_panic e"
  by (auto simp: evict_frame_CODE_def Let_def split: prod.splits if_splits)

lemma evict_frame_Inl: "evict_frame fte s = Inl e \<Longrightarrow> is_panic e"
  by (auto simp: evict_frame_def Let_def dest: evict_frame_CODE_Inl
      split: spte_type.splits if_splits)

lemma frame_alloc_loop_Inl: "frame_alloc_loop flags s = Inl e \<Longrightarrow> is_panic e"
proof (induction flags s rule: frame_alloc_loop.induct)
  case (1 flags s)
  from "1.prems" show ?case
    apply (subst (asm) frame_alloc_loop.simps)
    apply (auto split: if_splits sum.splits prod.splits option.splits
        dest: get_victim_frame_Inl evict_frame_Inl palloc_get_page_Inl intro: "1.IH")
    done
qed

lemma frame_alloc_Inl: "frame_alloc flags s = Inl e \<Longrightarrow> is_panic e"
  by (auto simp: frame_alloc_def split: if_splits sum.splits prod.splits option.splits
      dest: frame_alloc_loop_Inl palloc_get_page_Inl)

lemma frame_alloc_not_None: "frame_alloc flags s \<noteq> Inr (None, s')"
  by (auto simp: frame_alloc_def user_flag_guard_False
      split: sum.splits prod.splits option.splits)

lemmas pagedir_bit_defs =
  pagedir_is_dirty_def pagedir_is_accessed_def lookup_page_def pg_round_down_def PGSIZE_def
  pte_create_user_def

lemmas st_two_code_defs = st_two_code_def st0_def spte0_def fteA_def fteB_def

lemma st_two_code_phase1:
  "get_victim_phase1 (frame_table st_two_code) st_two_code = (Some fteB, st_two_code)"
  by (simp add: st_two_code_defs pagedir_bit_defs)

lemmas load_defs =
  grow_stack_def create_spte_code_def create_spte_def hash_insert_def hash_find_def
  install_load_page_def install_load_swap_def get_frame_for_page_def frame_alloc_def
  palloc_get_page_def add_to_frame_table_def install_page_def pagedir_get_page_def
  pagedir_set_page_def lookup_page_def user_flag_guard_def pg_round_down_def PGSIZE_def
  PHYS_BASE_def PAL_USER_def PAL_ZERO_def PAL_ASSERT_def BITMAP_ERROR_def free_frame_def
  palloc_free_page_def

lemma uint_diff_le:
  fixes a b :: "32 word"
  shows "uint a - uint b \<le> uint (a - b)"
proof (cases "b \<le> a")
  case True
  then show ?thesis by (simp add: uint_minus_simple_alt)
next
  case False
  then have "uint a - uint b < 0" by (simp add: word_le_def)
  moreover have "0 \<le> uint (a - b)" by simp
  ultimately show ?thesis by linarith
qed

lemma word_less_diff:
  fixes a b m :: "32 word"
  assumes "uint m < uint a - uint b"
  shows "m < a - b"
proof -
  have "0 \<le> uint m" by simp
  with assms have "uint b \<le> uint a" by linarith
  then have "b \<le> a" by (simp add: word_le_def)
  then have "uint (a - b) = uint a - uint b" by (simp add: uint_minus_simple_alt)
  with assms show ?thesis by (simp add: word_less_def)
qed

lemma grow_stack_refuses:
  "MAX_STACK_SIZE cfg < PHYS_BASE - uaddr \<Longrightarrow> grow_stack cfg uaddr pin s = Inr (False, s)"
  by (simp add: grow_stack_def)

lemma grow_stack_True_bound:
  "grow_stack cfg uaddr pin s = Inr (True, s') \<Longrightarrow> PHYS_BASE - uaddr \<le> MAX_STACK_SIZE cfg"
  by (rule ccontr) (simp add: grow_stack_def not_le)

lemma find_free_Some:
  "find_free xs = Some i \<Longrightarrow> i < length xs \<and> xs ! i = None"
proof (induction xs arbitrary: i)
  case Nil
  then show ?case by simp
next
  case (Cons x xs)
  show ?case
  proof (cases x)
    case None
    with Cons.prems show ?thesis by simp
  next
    case (Some y)
    with Cons.prems obtain j where "find_free xs = Some j" "i = Suc j" by auto
    with Cons.IH [of j] show ?thesis by simp
  qed
qed

lemma find_free_None: "find_free xs = None \<Longrightarrow> None \<notin> set xs"
  by (induction xs) (auto split: option.splits)

lemma pagedir_get_page_clear:
  "pagedir_get_page (pagedir_clear_page t va s) t va = None"
  by (cases "pagedir s t (pg_round_down va)")
    (simp_all add: pagedir_get_page_def pagedir_clear_page_def update_pte_def lookup_page_def)

lemma pagedir_get_page_palloc_free [simp]:
  "pagedir_get_page (palloc_free_page k s) t va = pagedir_get_page s t va"
  by (simp add: pagedir_get_page_def lookup_page_def)

lemma palloc_free_page_pool:
  "k \<in> set (user_pool (palloc_free_page (Some k) s)) \<union> set (kernel_pool (palloc_free_page (Some k) s))"
  by (simp add: palloc_free_page_def)

lemma of_nat_slot:
  assumes "i < n" "n < 2 ^ 32"
  shows "(of_nat i :: 32 word) \<noteq> BITMAP_ERROR" "unat (of_nat i :: 32 word) = i"
proof -
  from assms have i: "i < 2 ^ 32 - 1" by simp
  then show u: "unat (of_nat i :: 32 word) = i" by (simp add: unat_of_nat)
  have m: "(- 1 :: 32 word) = 0xFFFFFFFF" by simp
  have n: "unat (0xFFFFFFFF :: 32 word) = 4294967295" by simp
  have "unat (BITMAP_ERROR :: 32 word) = 4294967295" by (simp only: BITMAP_ERROR_def m n)
  with u i show "(of_nat i :: 32 word) \<noteq> BITMAP_ERROR" by auto
qed

lemma hash_clear_swap_map: "swap_map (hash_clear h s) = swap_map s"
proof (induction h s rule: hash_clear.induct)
  case (1 h s)
  show ?case
  proof (cases "supp_page_table s h")
    case Nil
    then show ?thesis by (subst hash_clear.simps) simp
  next
    case (Cons e es)
    with "1.IH" [OF Cons] show ?thesis
      by (subst hash_clear.simps) (simp add: free_spte_elem_def)
  qed
qed

lemma hash_clear_empty: "supp_page_table (hash_clear h s) h = []"
proof (induction h s rule: hash_clear.induct)
  case (1 h s)
  show ?case
  proof (cases "supp_page_table s h")
    case Nil
    then show ?thesis by (subst hash_clear.simps) simp
  next
    case (Cons e es)
    with "1.IH" [OF Cons] show ?thesis
      by (subst hash_clear.simps) simp
  qed
qed

lemma free_spte_resident:
  assumes "frame (sptes s p) = Some k"
  shows "pagedir_get_page (free_spte (Some p) s) (cur s) (upage (sptes s p)) = None"
    and "k \<in> set (user_pool (free_spte (Some p) s)) \<union> set (kernel_pool (free_spte (Some p) s))"
    and "frame_table (free_spte (Some p) s) = free_frame_loop k (frame_table s)"
proof -
  let ?s0 = "pagedir_clear_page (cur s) (upage (sptes s p)) s"
  let ?s1 = "free_frame k ?s0"
  have eq: "free_spte (Some p) s = hash_delete (cur ?s1) p ?s1"
    using assms by (simp add: free_spte_def)
  have "pagedir_get_page ?s1 (cur s) (upage (sptes s p)) = pagedir_get_page ?s0 (cur s) (upage (sptes s p))"
    by (simp add: pagedir_get_page_def lookup_page_def)
  then show "pagedir_get_page (free_spte (Some p) s) (cur s) (upage (sptes s p)) = None"
    by (simp add: eq pagedir_get_page_def lookup_page_def pagedir_get_page_clear [unfolded pagedir_get_page_def lookup_page_def])
  show "k \<in> set (user_pool (free_spte (Some p) s)) \<union> set (kernel_pool (free_spte (Some p) s))"
    using palloc_free_page_pool [of k "?s0\<lparr>frame_table := free_frame_loop k (frame_table ?s0)\<rparr>"]
    by (simp add: eq free_frame_def)
  show "frame_table (free_spte (Some p) s) = free_frame_loop k (frame_table s)"
    by (simp add: eq pagedir_clear_page_def)
qed

lemma alloc_rel_refl: "alloc_rel s s"
  by (simp add: alloc_rel_def)

lemma alloc_rel_trans: "alloc_rel s s1 \<Longrightarrow> alloc_rel s1 s2 \<Longrightarrow> alloc_rel s s2"
  by (simp add: alloc_rel_def)

lemma alloc_rel_pagedir: "alloc_rel s (s\<lparr>pagedir := pd\<rparr>)"
  by (simp add: alloc_rel_def)

lemma get_victim_frame_alloc_rel:
  "get_victim_frame s = Inr (r, s') \<Longrightarrow> alloc_rel s s'"
  using get_victim_frame_pagedir_only [of s r s'] alloc_rel_pagedir by auto

lemma palloc_get_page_alloc_rel:
  "palloc_get_page flags s = Inr (r, s') \<Longrightarrow> alloc_rel s s'"
  by (simp add: alloc_rel_def palloc_get_page_fields)

lemma evict_frame_CODE_alloc_rel:
  assumes "evict_frame_CODE fte s = Inr (b, s')"
  shows "alloc_rel s s'"
proof -
  obtain i s1 where so: "swap_out (fte_spte fte) s = (i, s1)"
    by (cases "swap_out (fte_spte fte) s")
  from assms so have res: "frame (sptes s (fte_spte fte)) \<noteq> None"
    and s': "s' = clear_frame_entry fte
       (s1\<lparr>sptes := (sptes s1)(fte_spte fte := (sptes s1 (fte_spte fte))
          \<lparr>idx := i, is_in_swap := True, frame := None\<rparr>)\<rparr>)"
    by (auto simp: evict_frame_CODE_def Let_def split: if_splits)
  from res show ?thesis
    unfolding s' by (auto simp: alloc_rel_def swap_out_fields [OF so])
qed

lemma evict_frame_alloc_rel:
  assumes "evict_frame fte s = Inr (b, s')" "frame (sptes s (fte_spte fte)) \<noteq> None"
  shows "alloc_rel s s'"
proof (cases "type (sptes s (fte_spte fte))")
  case CODE
  with assms show ?thesis by (simp add: evict_frame_def evict_frame_CODE_alloc_rel)
next
  case FILE
  let ?s0 = "s\<lparr>sptes := (sptes s)(fte_spte fte := (sptes s (fte_spte fte))\<lparr>type := CODE\<rparr>)\<rparr>"
  from FILE assms have "evict_frame_CODE fte ?s0 = Inr (b, s')"
    by (simp add: evict_frame_def Let_def)
  then have "alloc_rel ?s0 s'" by (rule evict_frame_CODE_alloc_rel)
  moreover from assms(2) have "alloc_rel s ?s0" by (auto simp: alloc_rel_def)
  ultimately show ?thesis by (rule alloc_rel_trans [rotated])
next
  case MMAP
  with assms have "s' = clear_frame_entry fte
      (s\<lparr>sptes := (sptes s)(fte_spte fte := (sptes s (fte_spte fte))\<lparr>frame := None\<rparr>)\<rparr>)"
    by (auto simp: evict_frame_def Let_def split: if_splits)
  with assms(2) show ?thesis by (auto simp: alloc_rel_def)
qed

lemma frame_alloc_loop_step:
  assumes "frame_alloc_loop flags s = Inr (k, s')"
  obtains fte s1 s2 r s3 where
    "frame_table s \<noteq> []"
    "get_victim_frame s = Inr (Some fte, s1)"
    "fte_frame fte \<noteq> None" "frame (sptes s1 (fte_spte fte)) \<noteq> None"
    "evict_frame fte s1 = Inr (True, s2)"
    "palloc_get_page flags s2 = Inr (r, s3)"
    "(r = Some k \<and> s' = s3) \<or> (r = None \<and> frame_alloc_loop flags s3 = Inr (k, s'))"
proof -
  have "\<exists>fte s1 s2 r s3. frame_table s \<noteq> []
      \<and> get_victim_frame s = Inr (Some fte, s1)
      \<and> fte_frame fte \<noteq> None \<and> frame (sptes s1 (fte_spte fte)) \<noteq> None
      \<and> evict_frame fte s1 = Inr (True, s2)
      \<and> palloc_get_page flags s2 = Inr (r, s3)
      \<and> ((r = Some k \<and> s' = s3) \<or> (r = None \<and> frame_alloc_loop flags s3 = Inr (k, s')))"
    using assms unfolding frame_alloc_loop.simps [of flags s]
    by (auto split: if_splits sum.splits prod.splits option.splits)
  then show thesis using that by blast
qed

lemma frame_alloc_loop_alloc_rel:
  "frame_alloc_loop flags s = Inr (k, s') \<Longrightarrow> alloc_rel s s'"
proof (induction flags s rule: frame_alloc_loop.induct)
  case (1 flags s)
  from "1.prems" show ?case
  proof (rule frame_alloc_loop_step)
    fix fte s1 s2 r s3
    assume ne: "frame_table s \<noteq> []"
      and v: "get_victim_frame s = Inr (Some fte, s1)"
      and f1: "fte_frame fte \<noteq> None" and f2: "frame (sptes s1 (fte_spte fte)) \<noteq> None"
      and e: "evict_frame fte s1 = Inr (True, s2)"
      and p: "palloc_get_page flags s2 = Inr (r, s3)"
      and d: "(r = Some k \<and> s' = s3) \<or> (r = None \<and> frame_alloc_loop flags s3 = Inr (k, s'))"
    have r3: "alloc_rel s s3"
      using get_victim_frame_alloc_rel [OF v] evict_frame_alloc_rel [OF e f2]
        palloc_get_page_alloc_rel [OF p] by (blast intro: alloc_rel_trans)
    from d show "alloc_rel s s'"
    proof
      assume "r = Some k \<and> s' = s3"
      with r3 show ?thesis by simp
    next
      assume a: "r = None \<and> frame_alloc_loop flags s3 = Inr (k, s')"
      have "alloc_rel s3 s'"
        using "1.IH" [OF ne v refl refl f1 f2 e refl TrueI p refl] a by simp
      with r3 show ?thesis by (rule alloc_rel_trans)
    qed
  qed
qed

lemma frame_alloc_alloc_rel:
  "frame_alloc flags s = Inr (r, s') \<Longrightarrow> alloc_rel s s'"
  unfolding frame_alloc_def
  by (auto simp: alloc_rel_refl split: if_splits sum.splits prod.splits option.splits
      dest!: palloc_get_page_alloc_rel frame_alloc_loop_alloc_rel intro: alloc_rel_trans)

lemma get_frame_for_page_alloc_rel:
  assumes "get_frame_for_page flags (Some p) s = Inr (r, s')"
  shows "alloc_rel s s'"
proof -
  from assms obtain k s1 where a: "frame_alloc flags s = Inr (Some k, s1)"
    and s': "s' = add_to_frame_table k p s1"
    by (auto simp: get_frame_for_page_def user_flag_guard_False
        split: sum.splits prod.splits option.splits)
  from frame_alloc_alloc_rel [OF a] show ?thesis
    unfolding s' by (simp add: alloc_rel_def add_to_frame_table_def)
qed

lemma free_frame_alloc_rel: "alloc_rel s (free_frame k s)"
  by (simp add: alloc_rel_def)

lemma install_page_False: "install_page up k rw s = (False, s') \<Longrightarrow> s' = s"
  by (auto simp: install_page_def pagedir_set_page_def split: if_splits option.splits list.splits)

lemma install_load_swap_False:
  assumes "install_load_swap p s = Inr (False, s')"
  obtains k s1 where "get_frame_for_page (PAL_USER OR PAL_ZERO) (Some p) s = Inr (Some k, s1)"
    "install_page (upage (sptes s1 p)) k True s1 = (False, s1)" "s' = free_frame k s1"
proof -
  from assms obtain k s1 s2 where
    g: "get_frame_for_page (PAL_USER OR PAL_ZERO) (Some p) s = Inr (Some k, s1)"
    and i: "install_page (upage (sptes s1 p)) k True s1 = (False, s2)"
    and s': "s' = free_frame k s2"
    unfolding install_load_swap_def
    by (auto simp: Let_def split: sum.splits prod.splits option.splits bool.splits if_splits)
  from install_page_False [OF i] i g s' show thesis by (auto intro: that)
qed

lemma install_load_file_False:
  assumes "install_load_file p s = Inr (False, s')"
  obtains k s1 n s2 where "get_frame_for_page PAL_USER (Some p) s = Inr (Some k, s1)"
    "file_read (spte_file (sptes s1 p)) (page_read_bytes (sptes s1 p))
        (file_seek (spte_file (sptes s1 p)) (ofs (sptes s1 p)) s1) = (n, s2)"
    "n \<noteq> page_read_bytes (sptes s2 p) \<or>
     install_page (upage (sptes s2 p)) k (writable (sptes s2 p)) s2 = (False, s2)"
    "s' = free_frame k s2"
proof -
  from assms obtain k s1 where
    g: "get_frame_for_page PAL_USER (Some p) s = Inr (Some k, s1)"
    unfolding install_load_file_def
    by (auto split: sum.splits prod.splits option.splits)
  obtain n s2 where
    r: "file_read (spte_file (sptes s1 p)) (page_read_bytes (sptes s1 p))
        (file_seek (spte_file (sptes s1 p)) (ofs (sptes s1 p)) s1) = (n, s2)"
    by (cases "file_read (spte_file (sptes s1 p)) (page_read_bytes (sptes s1 p))
        (file_seek (spte_file (sptes s1 p)) (ofs (sptes s1 p)) s1)")
  obtain b s3 where
    i: "install_page (upage (sptes s2 p)) k (writable (sptes s2 p)) s2 = (b, s3)"
    by (cases "install_page (upage (sptes s2 p)) k (writable (sptes s2 p)) s2")
  show thesis
  proof (cases "n \<noteq> page_read_bytes (sptes s2 p)")
    case True
    with assms g r have "s' = free_frame k s2" by (simp add: install_load_file_def)
    with g r True show thesis by (auto intro: that)
  next
    case False
    with assms g r i have b: "b = False" and s': "s' = free_frame k s3"
      by (auto simp: install_load_file_def split: bool.splits)
    from i b install_page_False [of _ _ _ s2 s3] have "s3 = s2" by simp
    with g r i b s' show thesis by (auto intro: that)
  qed
qed

lemma file_read_seek_alloc_rel:
  "file_read f n (file_seek f pos s) = (got, s') \<Longrightarrow> alloc_rel s s'"
  by (auto simp: file_read_def file_seek_def Let_def alloc_rel_def)

lemma install_load_page_False_alloc_rel:
  assumes "install_load_page p s = Inr (False, s')"
  shows "alloc_rel s s'"
proof (cases "type (sptes s p)")
  case CODE
  with assms have "install_load_swap p s = Inr (False, s')" by (simp add: install_load_page_def)
  then show ?thesis
    by (rule install_load_swap_False)
      (auto dest!: get_frame_for_page_alloc_rel intro: alloc_rel_trans free_frame_alloc_rel)
next
  case FILE
  with assms have "install_load_file p s = Inr (False, s')" by (simp add: install_load_page_def)
  then show ?thesis
    by (rule install_load_file_False)
      (auto dest!: get_frame_for_page_alloc_rel file_read_seek_alloc_rel
        intro: alloc_rel_trans free_frame_alloc_rel)
next
  case MMAP
  with assms have "install_load_file p s = Inr (False, s')"
    by (simp add: install_load_page_def install_load_mmap_def)
  then show ?thesis
    by (rule install_load_file_False)
      (auto dest!: get_frame_for_page_alloc_rel file_read_seek_alloc_rel
        intro: alloc_rel_trans free_frame_alloc_rel)
qed

lemma find_after_update:
  "\<forall>x\<in>set xs. \<not> P x \<Longrightarrow>
     find (\<lambda>q. q = p \<or> P q) xs = (if p \<in> set xs then Some p else None)"
  by (induction xs) auto

lemma alloc_rel_lookup:
  "alloc_rel s s' \<Longrightarrow> uvaddr_to_spt_entry s' va = uvaddr_to_spt_entry s va"
  by (simp add: alloc_rel_def uvaddr_to_spt_entry_def hash_find_def)

lemma create_spte_code_result:
  assumes "create_spte_code up s = (p, s1)"
  shows "p = next_spte s" "next_spte s1 = Suc (next_spte s)" "cur s1 = cur s"
    "sptes s1 = (sptes s)(p := (sptes s p)
       \<lparr>frame := None, is_in_swap := False, idx := BITMAP_ERROR,
        pinned := False, type := CODE, upage := up\<rparr>)"
    "hash_find s (cur s) up = None \<Longrightarrow>
       hash_find s1 (cur s) up = Some p \<and> p \<in> set (supp_page_table s1 (cur s))"
proof -
  let ?e = "(sptes s (next_spte s))
       \<lparr>frame := None, is_in_swap := False, idx := BITMAP_ERROR,
        pinned := False, type := CODE, upage := up\<rparr>"
  let ?s0 = "s\<lparr>next_spte := Suc (next_spte s), sptes := (sptes s)(next_spte s := ?e)\<rparr>"
  from assms have p: "p = next_spte s" and s1: "s1 = hash_insert (cur s) p ?s0"
    by (auto simp: create_spte_code_def create_spte_def Let_def)
  show "p = next_spte s" by (rule p)
  show "next_spte s1 = Suc (next_spte s)"
    by (simp add: s1 hash_insert_def split: option.split)
  show "cur s1 = cur s" by (simp add: s1 hash_insert_def split: option.split)
  show "sptes s1 = (sptes s)(p := (sptes s p)
       \<lparr>frame := None, is_in_swap := False, idx := BITMAP_ERROR,
        pinned := False, type := CODE, upage := up\<rparr>)"
    by (simp add: s1 p hash_insert_def split: option.split)
  assume none: "hash_find s (cur s) up = None"
  then have no: "\<forall>x\<in>set (supp_page_table s (cur s)). \<not> upage (sptes s x) = up"
    by (simp add: hash_find_def find_None_iff)
  have pred: "(\<lambda>q. upage (sptes ?s0 q) = up) = (\<lambda>q. q = next_spte s \<or> upage (sptes s q) = up)"
    by (rule ext) simp
  have f0: "hash_find ?s0 (cur s) up =
      (if next_spte s \<in> set (supp_page_table s (cur s)) then Some (next_spte s) else None)"
    unfolding hash_find_def pred using find_after_update [OF no, of "next_spte s"] by simp
  show "hash_find s1 (cur s) up = Some p \<and> p \<in> set (supp_page_table s1 (cur s))"
  proof (cases "next_spte s \<in> set (supp_page_table s (cur s))")
    case True
    with f0 have "s1 = ?s0" by (simp add: s1 p hash_insert_def)
    with f0 True p show ?thesis by simp
  next
    case False
    with f0 have s1': "s1 = ?s0\<lparr>supp_page_table :=
        (supp_page_table ?s0)(cur s := p # supp_page_table ?s0 (cur s))\<rparr>"
      by (simp add: s1 p hash_insert_def)
    show ?thesis unfolding s1' by (simp add: hash_find_def p)
  qed
qed

lemma ft_wf_cong:
  "frame_table s' = frame_table s \<Longrightarrow> user_pool s' = user_pool s \<Longrightarrow>
   kernel_pool s' = kernel_pool s \<Longrightarrow> user_pool_base s' = user_pool_base s \<Longrightarrow>
   ft_wf s' = ft_wf s"
  by (simp add: ft_wf_def)

lemma distinct_map_remove1:
  "distinct (map f xs) \<Longrightarrow> distinct (map f (remove1 x xs))"
  by (induction xs) (auto dest: set_remove1_subset [THEN subsetD])

lemma distinct_map_remove1_notin:
  "distinct (map f xs) \<Longrightarrow> x \<in> set xs \<Longrightarrow> y \<in> set (remove1 x xs) \<Longrightarrow> f y \<noteq> f x"
proof (induction xs)
  case Nil
  then show ?case by simp
next
  case (Cons a xs)
  show ?case
  proof (cases "x = a")
    case True
    with Cons.prems have y: "y \<in> set xs" and fa: "f a \<notin> f ` set xs" by simp_all
    from y have "f y \<in> f ` set xs" by (rule imageI)
    with fa have "f y \<noteq> f a" by metis
    with True show ?thesis by simp
  next
    case False
    with Cons.prems have x: "x \<in> set xs" and d: "distinct (map f xs)"
      and fa: "f a \<notin> f ` set xs" and y: "y = a \<or> y \<in> set (remove1 x xs)"
      by simp_all
    from y show ?thesis
    proof
      assume ya: "y = a"
      from x have "f x \<in> f ` set xs" by (rule imageI)
      with fa have "f a \<noteq> f x" by metis
      with ya show ?thesis by simp
    next
      assume "y \<in> set (remove1 x xs)"
      with Cons.IH d x show ?thesis by simp
    qed
  qed
qed

lemma ft_wf_remove1:
  assumes d: "distinct (map fte_frame ft)"
    and fr: "\<forall>e\<in>set ft. \<forall>k. fte_frame e = Some k \<longrightarrow> k \<notin> set up \<and> k \<notin> set kp"
    and mem: "fte \<in> set ft"
  shows "distinct (map fte_frame (remove1 fte ft))"
    and "\<forall>e\<in>set (remove1 fte ft). \<forall>k. fte_frame e = Some k \<longrightarrow>
           k \<notin> set up \<and> k \<notin> set kp \<and> Some k \<noteq> fte_frame fte"
proof -
  show "distinct (map fte_frame (remove1 fte ft))"
    using d by (rule distinct_map_remove1)
  show "\<forall>e\<in>set (remove1 fte ft). \<forall>k. fte_frame e = Some k \<longrightarrow>
           k \<notin> set up \<and> k \<notin> set kp \<and> Some k \<noteq> fte_frame fte"
  proof (intro ballI allI impI)
    fix e k
    assume e: "e \<in> set (remove1 fte ft)" and k: "fte_frame e = Some k"
    from e set_remove1_subset [of fte ft] have "e \<in> set ft" by blast
    with fr k have "k \<notin> set up \<and> k \<notin> set kp" by blast
    moreover from distinct_map_remove1_notin [OF d mem e] k
    have "Some k \<noteq> fte_frame fte" by simp
    ultimately show "k \<notin> set up \<and> k \<notin> set kp \<and> Some k \<noteq> fte_frame fte" by simp
  qed
qed

lemma clear_frame_entry_pools:
  "frame_table (clear_frame_entry fte s) = remove1 fte (frame_table s)"
  "user_pool_base (clear_frame_entry fte s) = user_pool_base s"
  "fte_frame fte = None \<Longrightarrow> user_pool (clear_frame_entry fte s) = user_pool s"
  "fte_frame fte = None \<Longrightarrow> kernel_pool (clear_frame_entry fte s) = kernel_pool s"
  "fte_frame fte = Some kf \<Longrightarrow> user_pool_base s \<le> kf \<Longrightarrow>
     user_pool (clear_frame_entry fte s) = kf # user_pool s"
  "fte_frame fte = Some kf \<Longrightarrow> user_pool_base s \<le> kf \<Longrightarrow>
     kernel_pool (clear_frame_entry fte s) = kernel_pool s"
  "fte_frame fte = Some kf \<Longrightarrow> \<not> user_pool_base s \<le> kf \<Longrightarrow>
     user_pool (clear_frame_entry fte s) = user_pool s"
  "fte_frame fte = Some kf \<Longrightarrow> \<not> user_pool_base s \<le> kf \<Longrightarrow>
     kernel_pool (clear_frame_entry fte s) = kf # kernel_pool s"
  by (simp_all add: clear_frame_entry_def Let_def palloc_free_page_def pagedir_clear_page_def
      split: option.split)

lemma clear_frame_entry_ft_wf:
  assumes wf: "ft_wf s" and mem: "fte \<in> set (frame_table s)"
  shows "ft_wf (clear_frame_entry fte s)"
proof -
  from wf have d: "distinct (map fte_frame (frame_table s))"
    and fr: "\<forall>e\<in>set (frame_table s). \<forall>k. fte_frame e = Some k \<longrightarrow>
        k \<notin> set (user_pool s) \<and> k \<notin> set (kernel_pool s)"
    and ub: "\<forall>k\<in>set (user_pool s). user_pool_base s \<le> k"
    by (simp_all add: ft_wf_def)
  note r = ft_wf_remove1 [OF d fr mem]
  show ?thesis
  proof (cases "fte_frame fte")
    case None
    with r ub show ?thesis
      unfolding ft_wf_def clear_frame_entry_pools(1,2)
        clear_frame_entry_pools(3) [OF None] clear_frame_entry_pools(4) [OF None]
      by blast
  next
    case (Some kf)
    show ?thesis
    proof (cases "user_pool_base s \<le> kf")
      case True
      from r(2) Some have "\<forall>e\<in>set (remove1 fte (frame_table s)). \<forall>k. fte_frame e = Some k \<longrightarrow>
          k \<notin> set (kf # user_pool s) \<and> k \<notin> set (kernel_pool s)"
        by auto
      moreover from ub True have "\<forall>k\<in>set (kf # user_pool s). user_pool_base s \<le> k"
        by simp
      ultimately show ?thesis
        unfolding ft_wf_def clear_frame_entry_pools(1,2)
          clear_frame_entry_pools(5) [OF Some True] clear_frame_entry_pools(6) [OF Some True]
        using r(1) by blast
    next
      case False
      from r(2) Some have "\<forall>e\<in>set (remove1 fte (frame_table s)). \<forall>k. fte_frame e = Some k \<longrightarrow>
          k \<notin> set (user_pool s) \<and> k \<notin> set (kf # kernel_pool s)"
        by auto
      then show ?thesis
        unfolding ft_wf_def clear_frame_entry_pools(1,2)
          clear_frame_entry_pools(7) [OF Some False] clear_frame_entry_pools(8) [OF Some False]
        using r(1) ub by blast
    qed
  qed
qed

lemma evict_frame_CODE_shape:
  assumes "evict_frame_CODE fte s = Inr (b, s')"
  shows "\<exists>sm. s' = clear_frame_entry fte sm \<and> frame_table sm = frame_table s
    \<and> user_pool sm = user_pool s \<and> kernel_pool sm = kernel_pool s
    \<and> user_pool_base sm = user_pool_base s"
proof -
  obtain i s1 where so: "swap_out (fte_spte fte) s = (i, s1)"
    by (cases "swap_out (fte_spte fte) s")
  from assms so have "s' = clear_frame_entry fte
       (s1\<lparr>sptes := (sptes s1)(fte_spte fte := (sptes s1 (fte_spte fte))
          \<lparr>idx := i, is_in_swap := True, frame := None\<rparr>)\<rparr>)"
    by (auto simp: evict_frame_CODE_def Let_def split: if_splits)
  then show ?thesis
    by (intro exI conjI) (assumption, simp_all add: swap_out_fields [OF so])
qed

lemma evict_frame_shape:
  assumes "evict_frame fte s = Inr (b, s')"
  shows "\<exists>sm. s' = clear_frame_entry fte sm \<and> frame_table sm = frame_table s
    \<and> user_pool sm = user_pool s \<and> kernel_pool sm = kernel_pool s
    \<and> user_pool_base sm = user_pool_base s"
proof (cases "type (sptes s (fte_spte fte))")
  case CODE
  with assms show ?thesis by (simp add: evict_frame_def evict_frame_CODE_shape)
next
  case FILE
  with assms evict_frame_CODE_shape
    [of fte "s\<lparr>sptes := (sptes s)(fte_spte fte := (sptes s (fte_spte fte))\<lparr>type := CODE\<rparr>)\<rparr>" b s']
  show ?thesis by (simp add: evict_frame_def Let_def)
next
  case MMAP
  with assms have "s' = clear_frame_entry fte
      (s\<lparr>sptes := (sptes s)(fte_spte fte := (sptes s (fte_spte fte))\<lparr>frame := None\<rparr>)\<rparr>)"
    by (auto simp: evict_frame_def Let_def split: if_splits)
  then show ?thesis by (intro exI conjI) (assumption, simp_all)
qed

lemma evict_frame_ft_wf:
  assumes "ft_wf s" "fte \<in> set (frame_table s)" "evict_frame fte s = Inr (b, s')"
  shows "ft_wf s'"
proof -
  from evict_frame_shape [OF assms(3)] obtain sm where
    s': "s' = clear_frame_entry fte sm" and eq: "frame_table sm = frame_table s"
    "user_pool sm = user_pool s" "kernel_pool sm = kernel_pool s"
    "user_pool_base sm = user_pool_base s" by blast
  from assms(1) ft_wf_cong [OF eq] have "ft_wf sm" by simp
  moreover from assms(2) eq(1) have "fte \<in> set (frame_table sm)" by simp
  ultimately show ?thesis unfolding s' by (rule clear_frame_entry_ft_wf)
qed

lemma palloc_get_page_cases:
  assumes "palloc_get_page flags s = Inr (r, s')"
  obtains (none) "r = None" "s' = s"
  | (user) k ks where "r = Some k" "flags AND PAL_USER \<noteq> 0" "user_pool s = k # ks"
      "s' = s\<lparr>user_pool := ks\<rparr>"
  | (kernel) k ks where "r = Some k" "flags AND PAL_USER = 0" "kernel_pool s = k # ks"
      "s' = s\<lparr>kernel_pool := ks\<rparr>"
  using assms unfolding palloc_get_page_def
  by (auto split: if_splits list.splits)

lemma palloc_get_page_ft_wf:
  assumes wf: "ft_wf s" and p: "palloc_get_page flags s = Inr (r, s')"
  shows "ft_wf s' \<and> (r = None \<longrightarrow> s' = s)
    \<and> (\<forall>k. r = Some k \<longrightarrow> (\<forall>fte\<in>set (frame_table s'). fte_frame fte \<noteq> Some k)
          \<and> (flags AND PAL_USER \<noteq> 0 \<longrightarrow> user_pool_base s' \<le> k))"
  using p
proof (cases rule: palloc_get_page_cases)
  case none
  with wf show ?thesis by simp
next
  case (user k ks)
  with wf show ?thesis by (auto simp: ft_wf_def)
next
  case (kernel k ks)
  with wf show ?thesis by (auto simp: ft_wf_def)
qed

lemma get_victim_frame_ft_wf:
  assumes "get_victim_frame s = Inr (r, s')"
  shows "ft_wf s' = ft_wf s"
proof -
  from get_victim_frame_pagedir_only [OF assms] obtain pd where "s' = s\<lparr>pagedir := pd\<rparr>"
    by blast
  then show ?thesis by (simp add: ft_wf_def)
qed

lemma frame_alloc_loop_ft_wf:
  "ft_wf s \<Longrightarrow> frame_alloc_loop flags s = Inr (k, s') \<Longrightarrow>
     ft_wf s' \<and> (\<forall>fte\<in>set (frame_table s'). fte_frame fte \<noteq> Some k)
     \<and> (flags AND PAL_USER \<noteq> 0 \<longrightarrow> user_pool_base s' \<le> k)"
proof (induction flags s rule: frame_alloc_loop.induct)
  case (1 flags s)
  from "1.prems"(2) show ?case
  proof (rule frame_alloc_loop_step)
    fix fte s1 s2 r s3
    assume ne: "frame_table s \<noteq> []"
      and v: "get_victim_frame s = Inr (Some fte, s1)"
      and f1: "fte_frame fte \<noteq> None" and f2: "frame (sptes s1 (fte_spte fte)) \<noteq> None"
      and e: "evict_frame fte s1 = Inr (True, s2)"
      and p: "palloc_get_page flags s2 = Inr (r, s3)"
      and d: "(r = Some k \<and> s' = s3) \<or> (r = None \<and> frame_alloc_loop flags s3 = Inr (k, s'))"
    from get_victim_frame_ft_wf [OF v] "1.prems"(1) have w1: "ft_wf s1" by simp
    from get_victim_frame_sound [OF v] get_victim_frame_pagedir_only [OF v]
    have mem: "fte \<in> set (frame_table s1)" by auto
    from evict_frame_ft_wf [OF w1 mem e] have w2: "ft_wf s2" .
    note pg = palloc_get_page_ft_wf [OF w2 p]
    from d show ?thesis
    proof
      assume "r = Some k \<and> s' = s3"
      with pg show ?thesis by simp
    next
      assume a: "r = None \<and> frame_alloc_loop flags s3 = Inr (k, s')"
      from pg have w3: "ft_wf s3" by (rule conjunct1)
      from "1.IH" [OF ne v refl refl f1 f2 e refl TrueI p refl _ w3] a show ?thesis by simp
    qed
  qed
qed

lemma frame_alloc_ft_wf:
  assumes wf: "ft_wf s" and a: "frame_alloc flags s = Inr (Some k, s')"
  shows "ft_wf s' \<and> (\<forall>fte\<in>set (frame_table s'). fte_frame fte \<noteq> Some k)
     \<and> (flags AND PAL_USER \<noteq> 0 \<longrightarrow> user_pool_base s' \<le> k)"
proof -
  obtain r s1 where p: "palloc_get_page flags s = Inr (r, s1)"
    using a by (auto simp: frame_alloc_def user_flag_guard_False split: sum.splits)
  note pg = palloc_get_page_ft_wf [OF wf p]
  show ?thesis
  proof (cases r)
    case (Some k')
    with a p have "k' = k" "s' = s1" by (simp_all add: frame_alloc_def user_flag_guard_False)
    with pg Some show ?thesis by simp
  next
    case None
    with a p have "frame_alloc_loop flags s1 = Inr (k, s')"
      by (auto simp: frame_alloc_def user_flag_guard_False split: sum.splits)
    moreover from pg have "ft_wf s1" by (rule conjunct1)
    ultimately show ?thesis by (rule frame_alloc_loop_ft_wf [rotated])
  qed
qed

lemma free_frame_loop_append_new:
  "\<forall>fte\<in>set ft. fte_frame fte \<noteq> Some k \<Longrightarrow> fte_frame new = Some k \<Longrightarrow>
     free_frame_loop k (ft @ [new]) = ft"
  by (induction ft) simp_all

lemma get_frame_for_page_ft_wf:
  assumes wf: "ft_wf s" and g: "get_frame_for_page flags (Some p) s = Inr (Some k, s1)"
  shows "\<exists>s0. s1 = add_to_frame_table k p s0 \<and> alloc_rel s s0
     \<and> (\<forall>fte\<in>set (frame_table s0). fte_frame fte \<noteq> Some k)
     \<and> (flags AND PAL_USER \<noteq> 0 \<longrightarrow> user_pool_base s \<le> k)"
proof -
  from g obtain s0 where a: "frame_alloc flags s = Inr (Some k, s0)"
    and s1: "s1 = add_to_frame_table k p s0"
    by (auto simp: get_frame_for_page_def user_flag_guard_False
        split: sum.splits prod.splits option.splits)
  from frame_alloc_alloc_rel [OF a] have rel: "alloc_rel s s0" .
  then have "user_pool_base s0 = user_pool_base s" by (simp add: alloc_rel_def)
  with frame_alloc_ft_wf [OF wf a] s1 rel show ?thesis by auto
qed

lemma release_after_alloc:
  assumes s1: "s1 = add_to_frame_table k p s0"
    and fresh: "\<forall>fte\<in>set (frame_table s0). fte_frame fte \<noteq> Some k"
    and base: "user_pool_base s0 \<le> k"
    and same: "frame_table s2 = frame_table s1" "user_pool s2 = user_pool s1"
      "user_pool_base s2 = user_pool_base s1" "cur s0 = c"
  shows "frame_table s1 = frame_table (free_frame k s2) @ [\<lparr>fte_frame = Some k, fte_spte = p, fte_t = c\<rparr>]"
    and "\<forall>fte\<in>set (frame_table (free_frame k s2)). fte_frame fte \<noteq> Some k"
    and "k \<in> set (user_pool (free_frame k s2))"
proof -
  have ft1: "frame_table s1 = frame_table s0 @ [\<lparr>fte_frame = Some k, fte_spte = p, fte_t = c\<rparr>]"
    by (simp add: s1 add_to_frame_table_def same(4))
  have "free_frame_loop k (frame_table s0 @ [\<lparr>fte_frame = Some k, fte_spte = p, fte_t = c\<rparr>])
      = frame_table s0"
    using fresh by (rule free_frame_loop_append_new) simp
  with ft1 same(1) have ff: "frame_table (free_frame k s2) = frame_table s0" by simp
  with ft1 show "frame_table s1 =
      frame_table (free_frame k s2) @ [\<lparr>fte_frame = Some k, fte_spte = p, fte_t = c\<rparr>]"
    by simp
  from ff fresh show "\<forall>fte\<in>set (frame_table (free_frame k s2)). fte_frame fte \<noteq> Some k"
    by simp
  have "user_pool_base s2 = user_pool_base s0"
    by (simp add: same(3) s1 add_to_frame_table_def)
  with base show "k \<in> set (user_pool (free_frame k s2))"
    by (simp add: free_frame_def palloc_free_page_def)
qed

lemma file_read_seek_fields:
  assumes "file_read f n (file_seek f pos s) = (got, s')"
  shows "frame_table s' = frame_table s" "user_pool s' = user_pool s"
    "user_pool_base s' = user_pool_base s" "sptes s' = sptes s"
  using assms by (auto simp: file_read_def file_seek_def Let_def)

lemma load_flags_user:
  "PAL_USER AND PAL_USER \<noteq> 0" "(PAL_USER OR PAL_ZERO) AND PAL_USER \<noteq> 0"
  by (simp_all add: PAL_USER_def PAL_ZERO_def)

lemmas file_defs = install_load_file_def file_read_def file_seek_def io_count_def

lemmas mmap_defs =
  create_spte_mmap_def create_spte_mmap_loop.simps free_spte_mmap_def
  free_spte_mmap_loop.simps uvaddr_to_spt_entry_def hash_find_def hash_insert_def
  hash_delete_def create_spte_def free_spte_def file_length_def pg_round_down_def PGSIZE_def
  BITMAP_ERROR_def

lemmas read_defs =
  read_def then_do_def validate_def validate_loop.simps valid_up_def is_user_vaddr_def
  uvaddr_to_spt_entry_def hash_find_def pagedir_get_page_def lookup_page_def
  pg_round_down_def PGSIZE_def PHYS_BASE_def is_writable_def file_read_def io_count_def
  unpin_buffer_def unpin_buffer_loop.simps unpin_addr_def is_valid_fd_def ptr_file_def
  exit_NULL_def pte_create_user_def

lemma get_frame_for_page_entry:
  assumes "get_frame_for_page flags (Some p) s = Inr (r, s1)" "frame (sptes s p) = None"
  shows "sptes s1 p = sptes s p"
  using get_frame_for_page_alloc_rel [OF assms(1)] assms(2) by (simp add: alloc_rel_def)

lemma install_page_fst_False:
  "fst (install_page up k rw s) = False \<Longrightarrow> install_page up k rw s = (False, s)"
  using install_page_False [of up k rw s "snd (install_page up k rw s)"]
  by (cases "install_page up k rw s") auto

lemma install_load_swap_fails:
  assumes g: "get_frame_for_page (PAL_USER OR PAL_ZERO) (Some p) s = Inr (Some k, s1)"
    and i: "fst (install_page (upage (sptes s1 p)) k True s1) = False"
  shows "install_load_swap p s = Inr (False, free_frame k s1)"
  using g install_page_fst_False [OF i] by (simp add: install_load_swap_def)

lemma install_load_file_fails:
  assumes g: "get_frame_for_page PAL_USER (Some p) s = Inr (Some k, s1)"
    and rd: "rd = file_read (spte_file (sptes s1 p)) (page_read_bytes (sptes s1 p))
        (file_seek (spte_file (sptes s1 p)) (ofs (sptes s1 p)) s1)"
    and c: "fst rd \<noteq> page_read_bytes (sptes s1 p) \<or>
        fst (install_page (upage (sptes s1 p)) k (writable (sptes s1 p)) (snd rd)) = False"
  shows "install_load_file p s = Inr (False, free_frame k (snd rd))"
proof -
  obtain n s2 where r: "rd = (n, s2)" by (cases rd)
  with rd have rd': "file_read (spte_file (sptes s1 p)) (page_read_bytes (sptes s1 p))
        (file_seek (spte_file (sptes s1 p)) (ofs (sptes s1 p)) s1) = (n, s2)" by simp
  have e: "sptes s2 = sptes s1" by (rule file_read_seek_fields(4) [OF rd'])
  show ?thesis
  proof (cases "n \<noteq> page_read_bytes (sptes s1 p)")
    case True
    with g rd' e r show ?thesis by (simp add: install_load_file_def)
  next
    case False
    with c r have "fst (install_page (upage (sptes s1 p)) k (writable (sptes s1 p)) s2) = False"
      by simp
    from install_page_fst_False [OF this] g rd' e r False show ?thesis
      by (simp add: install_load_file_def)
  qed
qed

lemma install_load_page_Inl:
  "get_frame_for_page
      (case type (sptes s p) of CODE \<Rightarrow> PAL_USER OR PAL_ZERO | FILE \<Rightarrow> PAL_USER | MMAP \<Rightarrow> PAL_USER)
      (Some p) s = Inl e \<Longrightarrow> install_load_page p s = Inl e"
  by (cases "type (sptes s p)")
    (simp_all add: install_load_page_def install_load_mmap_def install_load_file_def
      install_load_swap_def)

lemma install_load_page_False_released:
  assumes wf: "ft_wf s" and nonres: "frame (sptes s p) = None"
    and fail: "install_load_page p s = Inr (False, s')"
  shows "sptes s' p = sptes s p
    \<and> (\<exists>k s1.
          get_frame_for_page
            (case type (sptes s p) of
               CODE \<Rightarrow> PAL_USER OR PAL_ZERO | FILE \<Rightarrow> PAL_USER | MMAP \<Rightarrow> PAL_USER)
            (Some p) s = Inr (Some k, s1)
          \<and> frame_table s1 =
              frame_table s' @ [\<lparr>fte_frame = Some k, fte_spte = p, fte_t = cur s\<rparr>]
          \<and> (\<forall>fte\<in>set (frame_table s'). fte_frame fte \<noteq> Some k)
          \<and> k \<in> set (user_pool s')
          \<and> (if type (sptes s p) = CODE
              then fst (install_page (upage (sptes s p)) k True s1) = False
              else (let rd = file_read (spte_file (sptes s p)) (page_read_bytes (sptes s p))
                               (file_seek (spte_file (sptes s p)) (ofs (sptes s p)) s1)
                    in fst rd \<noteq> page_read_bytes (sptes s p)
                       \<or> fst (install_page (upage (sptes s p)) k (writable (sptes s p)) (snd rd))
                           = False)))"
proof
  from install_load_page_False_alloc_rel [OF fail] nonres
  show "sptes s' p = sptes s p" by (simp add: alloc_rel_def)
next
  let ?new = "\<lambda>k. \<lparr>fte_frame = Some k, fte_spte = p, fte_t = cur s\<rparr>"
  let ?rd = "\<lambda>s1. file_read (spte_file (sptes s p)) (page_read_bytes (sptes s p))
      (file_seek (spte_file (sptes s p)) (ofs (sptes s p)) s1)"
  have swap_case: "install_load_swap p s = Inr (False, s') \<Longrightarrow>
      \<exists>k s1. get_frame_for_page (PAL_USER OR PAL_ZERO) (Some p) s = Inr (Some k, s1)
        \<and> frame_table s1 = frame_table s' @ [?new k]
        \<and> (\<forall>fte\<in>set (frame_table s'). fte_frame fte \<noteq> Some k)
        \<and> k \<in> set (user_pool s')
        \<and> fst (install_page (upage (sptes s p)) k True s1) = False"
  proof (erule install_load_swap_False)
    fix k s1
    assume g: "get_frame_for_page (PAL_USER OR PAL_ZERO) (Some p) s = Inr (Some k, s1)"
      and i: "install_page (upage (sptes s1 p)) k True s1 = (False, s1)"
      and s': "s' = free_frame k s1"
    from get_frame_for_page_ft_wf [OF wf g] load_flags_user(2) obtain s0 where
      s1: "s1 = add_to_frame_table k p s0" and rel: "alloc_rel s s0"
      and fresh: "\<forall>fte\<in>set (frame_table s0). fte_frame fte \<noteq> Some k"
      and base: "user_pool_base s \<le> k" by blast
    from rel have b0: "user_pool_base s0 \<le> k" and c: "cur s0 = cur s"
      using base by (simp_all add: alloc_rel_def)
    note r = release_after_alloc [OF s1 fresh b0 refl refl refl c]
    from i get_frame_for_page_entry [OF g nonres]
    have "fst (install_page (upage (sptes s p)) k True s1) = False" by simp
    with g r show ?thesis unfolding s' by blast
  qed
  have file_case: "install_load_file p s = Inr (False, s') \<Longrightarrow>
      \<exists>k s1. get_frame_for_page PAL_USER (Some p) s = Inr (Some k, s1)
        \<and> frame_table s1 = frame_table s' @ [?new k]
        \<and> (\<forall>fte\<in>set (frame_table s'). fte_frame fte \<noteq> Some k)
        \<and> k \<in> set (user_pool s')
        \<and> (fst (?rd s1) \<noteq> page_read_bytes (sptes s p)
           \<or> fst (install_page (upage (sptes s p)) k (writable (sptes s p)) (snd (?rd s1)))
               = False)"
  proof (erule install_load_file_False)
    fix k s1 n s2
    assume g: "get_frame_for_page PAL_USER (Some p) s = Inr (Some k, s1)"
      and rd: "file_read (spte_file (sptes s1 p)) (page_read_bytes (sptes s1 p))
        (file_seek (spte_file (sptes s1 p)) (ofs (sptes s1 p)) s1) = (n, s2)"
      and cause: "n \<noteq> page_read_bytes (sptes s2 p) \<or>
        install_page (upage (sptes s2 p)) k (writable (sptes s2 p)) s2 = (False, s2)"
      and s': "s' = free_frame k s2"
    from get_frame_for_page_ft_wf [OF wf g] load_flags_user(1) obtain s0 where
      s1: "s1 = add_to_frame_table k p s0" and rel: "alloc_rel s s0"
      and fresh: "\<forall>fte\<in>set (frame_table s0). fte_frame fte \<noteq> Some k"
      and base: "user_pool_base s \<le> k" by blast
    from rel have b0: "user_pool_base s0 \<le> k" and c: "cur s0 = cur s"
      using base by (simp_all add: alloc_rel_def)
    note f = file_read_seek_fields [OF rd]
    note r = release_after_alloc [OF s1 fresh b0 f(1) f(2) f(3) c]
    note e = get_frame_for_page_entry [OF g nonres]
    from rd e have rd': "?rd s1 = (n, s2)" by simp
    from cause f(4) e have "n \<noteq> page_read_bytes (sptes s p) \<or>
        fst (install_page (upage (sptes s p)) k (writable (sptes s p)) s2) = False"
      by auto
    with rd' have "fst (?rd s1) \<noteq> page_read_bytes (sptes s p)
        \<or> fst (install_page (upage (sptes s p)) k (writable (sptes s p)) (snd (?rd s1)))
            = False"
      by simp
    with g r show ?thesis unfolding s' by blast
  qed
  show "\<exists>k s1.
          get_frame_for_page
            (case type (sptes s p) of
               CODE \<Rightarrow> PAL_USER OR PAL_ZERO | FILE \<Rightarrow> PAL_USER | MMAP \<Rightarrow> PAL_USER)
            (Some p) s = Inr (Some k, s1)
          \<and> frame_table s1 = frame_table s' @ [?new k]
          \<and> (\<forall>fte\<in>set (frame_table s'). fte_frame fte \<noteq> Some k)
          \<and> k \<in> set (user_pool s')
          \<and> (if type (sptes s p) = CODE
              then fst (install_page (upage (sptes s p)) k True s1) = False
              else (let rd = ?rd s1
                    in fst rd \<noteq> page_read_bytes (sptes s p)
                       \<or> fst (install_page (upage (sptes s p)) k (writable (sptes s p)) (snd rd))
                           = False))"
  proof (cases "type (sptes s p)")
    case CODE
    with fail have "install_load_swap p s = Inr (False, s')"
      by (simp add: install_load_page_def)
    from swap_case [OF this] CODE show ?thesis by simp
  next
    case FILE
    with fail have "install_load_file p s = Inr (False, s')"
      by (simp add: install_load_page_def)
    from file_case [OF this] FILE show ?thesis by (simp add: Let_def)
  next
    case MMAP
    with fail have "install_load_file p s = Inr (False, s')"
      by (simp add: install_load_page_def install_load_mmap_def)
    from file_case [OF this] MMAP show ?thesis by (simp add: Let_def)
  qed
qed

lemmas st_load_defs =
  st_short_def st_file_nopt_def st_mmap_short_def st_mmap_nopt_def st_code_nopt_def st0_def
  spte0_def

lemmas install_defs =
  install_page_def pagedir_get_page_def pagedir_set_page_def lookup_page_def
  file_read_def file_seek_def io_count_def pg_round_down_def PGSIZE_def

section \<open>The claims\<close>

text \<open>
  C9. The user-pool flag guard in frame allocation is unreachable: for every flags value,
  with or without the \<^verbatim>\<open>PAL_USER\<close> bit, the condition \<^verbatim>\<open>flags & PAL_USER == 0\<close> of
  \<^verbatim>\<open>get_frame_for_page\<close> and \<^verbatim>\<open>frame_alloc\<close> is false, so neither function returns \<^verbatim>\<open>NULL\<close>
  for a missing flag; given a non-null entry, \<^verbatim>\<open>get_frame_for_page\<close> either returns a
  frame or panics.
\<close>

theorem C9_user_flag_guard_unreachable:
  "\<not> user_flag_guard flags \<and>
   (\<forall>s'. frame_alloc flags s \<noteq> Inr (None, s')) \<and>
   (case get_frame_for_page flags (Some spte) s of
      Inl e \<Rightarrow> is_panic e
    | Inr (r, s') \<Rightarrow> r \<noteq> None)"
proof -
  have guard: "\<not> user_flag_guard flags" by (rule user_flag_guard_False)
  have alloc: "\<forall>s'. frame_alloc flags s \<noteq> Inr (None, s')"
    by (simp add: frame_alloc_not_None)
  have "case get_frame_for_page flags (Some spte) s of
      Inl e \<Rightarrow> is_panic e | Inr (r, s') \<Rightarrow> r \<noteq> None"
  proof (cases "frame_alloc flags s")
    case (Inl e)
    then show ?thesis
      using frame_alloc_Inl [OF Inl] by (simp add: get_frame_for_page_def guard)
  next
    case (Inr x)
    obtain r s1 where x: "x = (r, s1)" by (cases x)
    with Inr alloc obtain k where "r = Some k" by (cases r) auto
    with Inr x show ?thesis by (simp add: get_frame_for_page_def guard)
  qed
  with guard alloc show ?thesis by blast
qed

text \<open>
  C3. Whatever frame-table entry \<^verbatim>\<open>get_victim_frame\<close> returns, from whichever of its three
  loops, is an entry of the frame table whose supplemental-page-table entry is not pinned
  at the moment of selection: a pinned entry's frame is never chosen as the victim.
\<close>

theorem C3_victim_not_pinned:
  assumes "get_victim_frame s = Inr (Some fte, s')"
  shows "fte \<in> set (frame_table s) \<and> \<not> pinned (sptes s' (fte_spte fte))
    \<and> pinned (sptes s' (fte_spte fte)) = pinned (sptes s (fte_spte fte))"
proof -
  from get_victim_frame_pagedir_only [OF assms] have "sptes s' = sptes s" by auto
  with get_victim_frame_sound [OF assms] show ?thesis by simp
qed

theorem C3_victim_not_pinned_witness:
  "get_victim_frame st_two_code = Inr (Some fteB, st_two_code)
   \<and> fteB \<in> set (frame_table st_two_code)
   \<and> \<not> pinned (sptes st_two_code (fte_spte fteB))"
proof -
  have run: "get_victim_frame st_two_code = Inr (Some fteB, st_two_code)"
    by (simp add: get_victim_frame_def st_two_code_phase1)
  from C3_victim_not_pinned [OF run] run show ?thesis by simp
qed

text \<open>
  C4 (as the code has it). The first loop returns a non-pinned \<^verbatim>\<open>CODE\<close> frame whose accessed
  bit is clear only when its dirty bit is clear as well; a dirty one is passed over and the
  scan goes on. The condition "not accessed and (not dirty or kind = \<^verbatim>\<open>CODE\<close>)" is that
  of the second loop, which returns such a frame whatever its dirty bit.
\<close>

theorem C4_phase1_code_frame:
  assumes "\<not> pinned (sptes s (fte_spte fte))"
    and "type (sptes s (fte_spte fte)) = CODE"
    and "\<not> pagedir_is_accessed s (fte_t fte) (upage (sptes s (fte_spte fte)))"
  shows "get_victim_phase1 (fte # es) s =
      (if pagedir_is_dirty s (fte_t fte) (upage (sptes s (fte_spte fte)))
       then get_victim_phase1 es s else (Some fte, s))
    \<and> get_victim_phase2 (fte # es) s = (Some fte, s)"
  using assms by (simp add: Let_def)

theorem C4_phase1_code_frame_witness:
  "\<not> pinned (sptes st_two_code (fte_spte fteA))
   \<and> type (sptes st_two_code (fte_spte fteA)) = CODE
   \<and> \<not> pagedir_is_accessed st_two_code (fte_t fteA) (upage (sptes st_two_code (fte_spte fteA)))
   \<and> pagedir_is_dirty st_two_code (fte_t fteA) (upage (sptes st_two_code (fte_spte fteA)))
   \<and> get_victim_phase1 (fteA # [fteB]) st_two_code = get_victim_phase1 [fteB] st_two_code
   \<and> get_victim_phase2 (fteA # [fteB]) st_two_code = (Some fteA, st_two_code)"
proof -
  have a: "\<not> pinned (sptes st_two_code (fte_spte fteA))"
    by (simp add: st_two_code_defs)
  have b: "type (sptes st_two_code (fte_spte fteA)) = CODE"
    by (simp add: st_two_code_defs)
  have c: "\<not> pagedir_is_accessed st_two_code (fte_t fteA)
      (upage (sptes st_two_code (fte_spte fteA)))"
    by (simp add: st_two_code_defs pagedir_bit_defs)
  have d: "pagedir_is_dirty st_two_code (fte_t fteA)
      (upage (sptes st_two_code (fte_spte fteA)))"
    by (simp add: st_two_code_defs pagedir_bit_defs)
  from C4_phase1_code_frame [OF a b c, of "[fteB]"] a b c d show ?thesis by simp
qed

text \<open>
  C4 as stated fails: in the state \<open>st_two_code\<close> the first frame of the list is a
  non-pinned \<^verbatim>\<open>CODE\<close> frame with the accessed bit clear, and the first loop does not return
  it (it is dirty); the loop returns the second frame.
\<close>

theorem C4_phase1_counterexample:
  "frame_table st_two_code = [fteA, fteB]
   \<and> \<not> pinned (sptes st_two_code (fte_spte fteA))
   \<and> type (sptes st_two_code (fte_spte fteA)) = CODE
   \<and> \<not> pagedir_is_accessed st_two_code (fte_t fteA) (upage (sptes st_two_code (fte_spte fteA)))
   \<and> get_victim_phase1 (frame_table st_two_code) st_two_code \<noteq> (Some fteA, st_two_code)
   \<and> get_victim_phase1 (frame_table st_two_code) st_two_code = (Some fteB, st_two_code)"
proof -
  have "fteA \<noteq> fteB" by (simp add: fteA_def fteB_def)
  then show ?thesis
    by (simp add: st_two_code_phase1) (simp add: st_two_code_defs pagedir_bit_defs)
qed

text \<open>
  C7. \<^verbatim>\<open>grow_stack (addr, pinned)\<close> returns false and leaves the state as it is, so that no
  entry is created, when the distance from \<^verbatim>\<open>PHYS_BASE\<close> down to \<open>addr\<close> exceeds
  \<^verbatim>\<open>MAX_STACK_SIZE\<close>; it succeeds only if \<^verbatim>\<open>PHYS_BASE\<close> minus \<open>addr\<close> is at most
  \<^verbatim>\<open>MAX_STACK_SIZE\<close>. The distance is read both as the code computes it (a 32-bit
  difference) and as a difference of integers.
\<close>

theorem C7_grow_stack_bound:
  "(uint (MAX_STACK_SIZE cfg) < uint PHYS_BASE - uint uaddr \<longrightarrow>
      grow_stack cfg uaddr pin s = Inr (False, s))
   \<and> (MAX_STACK_SIZE cfg < PHYS_BASE - uaddr \<longrightarrow>
      grow_stack cfg uaddr pin s = Inr (False, s))
   \<and> (grow_stack cfg uaddr pin s = Inr (True, s') \<longrightarrow>
        PHYS_BASE - uaddr \<le> MAX_STACK_SIZE cfg
        \<and> uint PHYS_BASE - uint uaddr \<le> uint (MAX_STACK_SIZE cfg))"
proof (intro conjI impI)
  assume "uint (MAX_STACK_SIZE cfg) < uint PHYS_BASE - uint uaddr"
  then have "MAX_STACK_SIZE cfg < PHYS_BASE - uaddr" by (rule word_less_diff)
  then show "grow_stack cfg uaddr pin s = Inr (False, s)" by (rule grow_stack_refuses)
next
  assume "MAX_STACK_SIZE cfg < PHYS_BASE - uaddr"
  then show "grow_stack cfg uaddr pin s = Inr (False, s)" by (rule grow_stack_refuses)
next
  assume ok: "grow_stack cfg uaddr pin s = Inr (True, s')"
  then show le: "PHYS_BASE - uaddr \<le> MAX_STACK_SIZE cfg" by (rule grow_stack_True_bound)
  then have "uint (PHYS_BASE - uaddr) \<le> uint (MAX_STACK_SIZE cfg)" by (simp add: word_le_def)
  with uint_diff_le [of PHYS_BASE uaddr]
  show "uint PHYS_BASE - uint uaddr \<le> uint (MAX_STACK_SIZE cfg)" by linarith
qed

theorem C7_grow_stack_bound_witness:
  "uint (MAX_STACK_SIZE cfg0) < uint PHYS_BASE - uint (0xBF000000 :: addr)
   \<and> grow_stack cfg0 0xBF000000 True st_grow = Inr (False, st_grow)
   \<and> (\<exists>s'. grow_stack cfg0 0xBFFFFFEC True st_grow = Inr (True, s'))
   \<and> PHYS_BASE - 0xBFFFFFEC \<le> MAX_STACK_SIZE cfg0"
proof -
  have far: "uint (MAX_STACK_SIZE cfg0) < uint PHYS_BASE - uint (0xBF000000 :: addr)"
    by (simp add: cfg0_def PHYS_BASE_def)
  obtain s' where near: "grow_stack cfg0 0xBFFFFFEC True st_grow = Inr (True, s')"
    by (simp add: load_defs st_grow_def st0_def spte0_def cfg0_def Let_def)
  from C7_grow_stack_bound [of cfg0 "0xBF000000" True st_grow]
    C7_grow_stack_bound [of cfg0 "0xBFFFFFEC" True st_grow s'] far near
  show ?thesis by blast
qed

text \<open>
  C8. When the frame-table entry chosen for eviction belongs to a \<^verbatim>\<open>FILE\<close> entry,
  \<^verbatim>\<open>evict_frame\<close> turns the entry into a \<^verbatim>\<open>CODE\<close> entry and runs the \<^verbatim>\<open>CODE\<close> path: a free
  swap slot is taken and filled from the frame, its index is recorded in the entry,
  \<^verbatim>\<open>is_in_swap\<close> becomes true, the entry's frame is cleared, the hardware mapping of the
  page is cleared, the frame-table entry is removed and its page returns to a pool; when
  no slot is free the kernel panics. The swap device holds fewer than \<open>2^32\<close> slots, its
  indices being of type \<^verbatim>\<open>size_t\<close>.
\<close>

theorem C8_evict_frame_FILE:
  assumes isfile: "type (sptes s (fte_spte fte)) = FILE"
    and res: "frame (sptes s (fte_spte fte)) = Some k"
    and len: "length (swap_map s) < 2 ^ 32"
  shows "(find_free (swap_map s) = None \<longrightarrow>
            evict_frame fte s = Inl (Panic ''Not able to swap out''))
    \<and> (\<forall>i. find_free (swap_map s) = Some i \<longrightarrow>
          (\<exists>s'. evict_frame fte s = Inr (True, s')
             \<and> type (sptes s' (fte_spte fte)) = CODE
             \<and> swap_map s ! i = None \<and> swap_map s' = (swap_map s)[i := Some k]
             \<and> idx (sptes s' (fte_spte fte)) = of_nat i
             \<and> unat (idx (sptes s' (fte_spte fte))) = i
             \<and> is_in_swap (sptes s' (fte_spte fte))
             \<and> frame (sptes s' (fte_spte fte)) = None
             \<and> pagedir_get_page s' (fte_t fte) (upage (sptes s (fte_spte fte))) = None
             \<and> frame_table s' = remove1 fte (frame_table s)
             \<and> (\<forall>kf. fte_frame fte = Some kf \<longrightarrow>
                    kf \<in> set (user_pool s') \<union> set (kernel_pool s'))))"
proof (intro conjI allI impI)
  assume "find_free (swap_map s) = None"
  with isfile res show "evict_frame fte s = Inl (Panic ''Not able to swap out'')"
    by (simp add: evict_frame_def evict_frame_CODE_def swap_out_def Let_def)
next
  fix i
  assume ff: "find_free (swap_map s) = Some i"
  from find_free_Some [OF ff] have i: "i < length (swap_map s)" "swap_map s ! i = None"
    by simp_all
  from of_nat_slot [OF i(1) len] have w: "(of_nat i :: 32 word) \<noteq> BITMAP_ERROR"
    "unat (of_nat i :: 32 word) = i" by simp_all
  let ?p = "fte_spte fte"
  let ?s1 = "s\<lparr>sptes := (sptes s)(?p := (sptes s ?p)\<lparr>type := CODE\<rparr>)\<rparr>"
  let ?s2 = "?s1\<lparr>swap_map := (swap_map s)[i := Some k]\<rparr>"
  let ?s3 = "?s2\<lparr>sptes := (sptes ?s2)(?p := (sptes ?s2 ?p)
      \<lparr>idx := of_nat i, is_in_swap := True, frame := None\<rparr>)\<rparr>"
  let ?s' = "clear_frame_entry fte ?s3"
  have run: "evict_frame fte s = Inr (True, ?s')"
    using isfile res ff w(1)
    by (simp add: evict_frame_def evict_frame_CODE_def swap_out_def Let_def ptr_val_def)
  have pd: "pagedir_get_page ?s' (fte_t fte) (upage (sptes s ?p)) = None"
    by (simp add: clear_frame_entry_def Let_def pagedir_get_page_clear)
  have pool: "\<forall>kf. fte_frame fte = Some kf \<longrightarrow>
      kf \<in> set (user_pool ?s') \<union> set (kernel_pool ?s')"
    using palloc_free_page_pool by (simp add: clear_frame_entry_def Let_def)
  show "\<exists>s'. evict_frame fte s = Inr (True, s')
             \<and> type (sptes s' (fte_spte fte)) = CODE
             \<and> swap_map s ! i = None \<and> swap_map s' = (swap_map s)[i := Some k]
             \<and> idx (sptes s' (fte_spte fte)) = of_nat i
             \<and> unat (idx (sptes s' (fte_spte fte))) = i
             \<and> is_in_swap (sptes s' (fte_spte fte))
             \<and> frame (sptes s' (fte_spte fte)) = None
             \<and> pagedir_get_page s' (fte_t fte) (upage (sptes s (fte_spte fte))) = None
             \<and> frame_table s' = remove1 fte (frame_table s)
             \<and> (\<forall>kf. fte_frame fte = Some kf \<longrightarrow>
                    kf \<in> set (user_pool s') \<union> set (kernel_pool s'))"
    apply (rule exI [of _ ?s'])
    apply (intro conjI)
              apply (rule run)
             apply simp
            apply (rule i(2))
           apply simp
          apply simp
         apply (simp add: w(2))
        apply simp
       apply simp
      apply (rule pd)
     apply simp
    apply (rule pool)
    done
qed

theorem C8_evict_frame_FILE_witness:
  "type (sptes st_file (fte_spte fteA)) = FILE
   \<and> frame (sptes st_file (fte_spte fteA)) = Some 0xC0200000
   \<and> find_free (swap_map st_file) = Some 1
   \<and> (\<exists>s'. evict_frame fteA st_file = Inr (True, s')
         \<and> type (sptes s' (fte_spte fteA)) = CODE
         \<and> swap_map s' = [Some 0xC0205000, Some 0xC0200000]
         \<and> idx (sptes s' (fte_spte fteA)) = 1
         \<and> is_in_swap (sptes s' (fte_spte fteA))
         \<and> frame (sptes s' (fte_spte fteA)) = None
         \<and> pagedir_get_page s' 1 0x08048000 = None
         \<and> frame_table s' = [])"
proof -
  have a: "type (sptes st_file (fte_spte fteA)) = FILE"
    by (simp add: st_file_def st0_def spte0_def fteA_def)
  have b: "frame (sptes st_file (fte_spte fteA)) = Some 0xC0200000"
    by (simp add: st_file_def st0_def spte0_def fteA_def)
  have c: "length (swap_map st_file) < 2 ^ 32"
    by (simp add: st_file_def st0_def)
  have d: "find_free (swap_map st_file) = Some 1"
    by (simp add: st_file_def st0_def)
  have e: "swap_map st_file = [Some 0xC0205000, None]"
    "frame_table st_file = [fteA]" "fte_t fteA = 1"
    "upage (sptes st_file (fte_spte fteA)) = 0x08048000"
    by (simp_all add: st_file_def st0_def spte0_def fteA_def)
  from C8_evict_frame_FILE [OF a b c] d obtain s' where
    "evict_frame fteA st_file = Inr (True, s')
      \<and> type (sptes s' (fte_spte fteA)) = CODE
      \<and> swap_map st_file ! 1 = None
      \<and> swap_map s' = (swap_map st_file)[1 := Some 0xC0200000]
      \<and> idx (sptes s' (fte_spte fteA)) = of_nat 1
      \<and> unat (idx (sptes s' (fte_spte fteA))) = 1
      \<and> is_in_swap (sptes s' (fte_spte fteA))
      \<and> frame (sptes s' (fte_spte fteA)) = None
      \<and> pagedir_get_page s' (fte_t fteA) (upage (sptes st_file (fte_spte fteA))) = None
      \<and> frame_table s' = remove1 fteA (frame_table st_file)
      \<and> (\<forall>kf. fte_frame fteA = Some kf \<longrightarrow>
            kf \<in> set (user_pool s') \<union> set (kernel_pool s'))"
    by blast
  with a b d e show ?thesis by auto
qed

text \<open>
  C1 (as the code has it). The per-entry release \<^verbatim>\<open>free_spte\<close> clears the mapping and frees
  the frame of a resident entry, removing the frame-table entry found for that frame, and
  leaves the swap device as it is; \<^verbatim>\<open>destroy_spt\<close> empties the table it is given and
  frees no swap slot.
\<close>

theorem C1_release_keeps_swap_slots:
  "swap_map (free_spte spte s) = swap_map s
   \<and> swap_map (destroy_spt h s) = swap_map s
   \<and> supp_page_table (destroy_spt h s) h = []
   \<and> (\<forall>p k. spte = Some p \<and> frame (sptes s p) = Some k \<longrightarrow>
          pagedir_get_page (free_spte spte s) (cur s) (upage (sptes s p)) = None
          \<and> k \<in> set (user_pool (free_spte spte s)) \<union> set (kernel_pool (free_spte spte s))
          \<and> frame_table (free_spte spte s) = free_frame_loop k (frame_table s))"
proof (intro conjI allI impI)
  show "swap_map (free_spte spte s) = swap_map s" by simp
  show "swap_map (destroy_spt h s) = swap_map s"
    by (simp add: destroy_spt_def hash_clear_swap_map)
  show "supp_page_table (destroy_spt h s) h = []"
    by (simp add: destroy_spt_def hash_clear_empty)
next
  fix p k
  assume "spte = Some p \<and> frame (sptes s p) = Some k"
  then have sp: "spte = Some p" and fr: "frame (sptes s p) = Some k" by simp_all
  from free_spte_resident(1) [OF fr] sp
  show "pagedir_get_page (free_spte spte s) (cur s) (upage (sptes s p)) = None" by simp
  from free_spte_resident(2) [OF fr] sp
  show "k \<in> set (user_pool (free_spte spte s)) \<union> set (kernel_pool (free_spte spte s))"
    by simp
  from free_spte_resident(3) [OF fr] sp
  show "frame_table (free_spte spte s) = free_frame_loop k (frame_table s)" by simp
qed

theorem C1_release_keeps_swap_slots_witness:
  "frame (sptes st_file 1) = Some 0xC0200000
   \<and> pagedir_get_page (free_spte (Some 1) st_file) 1 0x08048000 = None
   \<and> 0xC0200000 \<in> set (user_pool (free_spte (Some 1) st_file))
         \<union> set (kernel_pool (free_spte (Some 1) st_file))
   \<and> frame_table (free_spte (Some 1) st_file) = []
   \<and> swap_map (free_spte (Some 1) st_file) = [Some 0xC0205000, None]"
proof -
  have a: "frame (sptes st_file 1) = Some 0xC0200000" "cur st_file = 1"
    "upage (sptes st_file 1) = 0x08048000" "swap_map st_file = [Some 0xC0205000, None]"
    "free_frame_loop 0xC0200000 (frame_table st_file) = []"
    by (simp_all add: st_file_def st0_def spte0_def fteA_def)
  from C1_release_keeps_swap_slots [of "Some 1" st_file] a show ?thesis by simp
qed

text \<open>
  C1 as stated fails: the only entry of \<open>st_swapped\<close> is in swap and owns slot 0; after
  \<^verbatim>\<open>destroy_spt\<close> the table is empty and slot 0 is still in use.
\<close>

theorem C1_swap_slot_counterexample:
  "supp_page_table st_swapped 1 = [1]
   \<and> is_in_swap (sptes st_swapped 1) \<and> idx (sptes st_swapped 1) = 0
   \<and> swap_map st_swapped ! 0 = Some 0xC0200000
   \<and> supp_page_table (destroy_spt 1 st_swapped) 1 = []
   \<and> swap_map (destroy_spt 1 st_swapped) ! 0 = Some 0xC0200000"
  by (simp add: destroy_spt_def hash_clear_swap_map hash_clear_empty)
    (simp add: st_swapped_def st0_def spte0_def)

text \<open>
  C10. \<^verbatim>\<open>grow_stack\<close> is not atomic on load failure. For an address that passes the
  \<^verbatim>\<open>MAX_STACK_SIZE\<close> test it makes a new \<^verbatim>\<open>CODE\<close> entry (at the next heap address) for the
  page, hands it to \<^verbatim>\<open>hash_insert\<close> and then loads it; when the load fails it returns false
  and the new entry is still a non-resident \<^verbatim>\<open>CODE\<close> entry, which the table of the process
  holds and a lookup of the address finds. \<^verbatim>\<open>hash_insert\<close> adds an element only for a key
  the table does not hold, which is the situation in which \<^verbatim>\<open>grow_stack\<close> is called.
\<close>

theorem C10_grow_stack_not_atomic:
  assumes bound: "\<not> MAX_STACK_SIZE cfg < PHYS_BASE - uaddr"
    and fail: "grow_stack cfg uaddr pin s = Inr (False, s')"
  shows "type (sptes s' (next_spte s)) = CODE
    \<and> frame (sptes s' (next_spte s)) = None
    \<and> upage (sptes s' (next_spte s)) = pg_round_down uaddr
    \<and> pinned (sptes s' (next_spte s)) = pin
    \<and> (uvaddr_to_spt_entry s uaddr = None \<longrightarrow>
          uvaddr_to_spt_entry s' uaddr = Some (next_spte s)
          \<and> next_spte s \<in> set (supp_page_table s' (cur s')))"
proof -
  let ?up = "pg_round_down uaddr"
  obtain p s1 where c: "create_spte_code ?up s = (p, s1)"
    by (cases "create_spte_code ?up s")
  note r = create_spte_code_result [OF c]
  let ?s2 = "s1\<lparr>sptes := (sptes s1)(p := (sptes s1 p)\<lparr>pinned := pin\<rparr>)\<rparr>"
  from bound fail c have load: "install_load_page p ?s2 = Inr (False, s')"
    by (simp add: grow_stack_def Let_def)
  from install_load_page_False_alloc_rel [OF load] have rel: "alloc_rel ?s2 s'" .
  have e2: "sptes ?s2 p = (sptes s p)
       \<lparr>frame := None, is_in_swap := False, idx := BITMAP_ERROR,
        pinned := False, type := CODE, upage := ?up, pinned := pin\<rparr>"
    by (simp add: r(4))
  then have "frame (sptes ?s2 p) = None" by simp
  with rel have keep: "sptes s' p = sptes ?s2 p" by (simp add: alloc_rel_def)
  from keep e2 have "sptes s' p = (sptes s p)
       \<lparr>frame := None, is_in_swap := False, idx := BITMAP_ERROR,
        pinned := False, type := CODE, upage := ?up, pinned := pin\<rparr>"
    by (rule trans)
  then have fields: "type (sptes s' p) = CODE \<and> frame (sptes s' p) = None
      \<and> upage (sptes s' p) = ?up \<and> pinned (sptes s' p) = pin"
    by simp
  have look: "uvaddr_to_spt_entry s uaddr = None \<longrightarrow>
      uvaddr_to_spt_entry s' uaddr = Some p \<and> p \<in> set (supp_page_table s' (cur s'))"
  proof
    assume "uvaddr_to_spt_entry s uaddr = None"
    then have "hash_find s (cur s) ?up = None" by (simp add: uvaddr_to_spt_entry_def)
    from r(5) [OF this] have h1: "hash_find s1 (cur s) ?up = Some p"
      and m1: "p \<in> set (supp_page_table s1 (cur s))" by simp_all
    have "(\<lambda>q. upage (sptes ?s2 q) = ?up) = (\<lambda>q. upage (sptes s1 q) = ?up)"
      by (rule ext) simp
    with h1 have "uvaddr_to_spt_entry ?s2 uaddr = Some p"
      by (simp add: uvaddr_to_spt_entry_def hash_find_def r(3))
    with alloc_rel_lookup [OF rel] have a: "uvaddr_to_spt_entry s' uaddr = Some p" by simp
    from rel m1 have "p \<in> set (supp_page_table s' (cur s'))"
      by (simp add: alloc_rel_def r(3))
    with a show "uvaddr_to_spt_entry s' uaddr = Some p \<and> p \<in> set (supp_page_table s' (cur s'))"
      by simp
  qed
  from fields look show ?thesis unfolding r(1) by simp
qed

theorem C10_grow_stack_not_atomic_witness:
  "\<not> MAX_STACK_SIZE cfg0 < PHYS_BASE - 0xBFFFFFEC
   \<and> uvaddr_to_spt_entry st_grow_nopt 0xBFFFFFEC = None
   \<and> next_spte st_grow_nopt = 1
   \<and> supp_page_table st_grow_nopt 1 = []
   \<and> (\<exists>s'. grow_stack cfg0 0xBFFFFFEC True st_grow_nopt = Inr (False, s')
         \<and> type (sptes s' 1) = CODE \<and> frame (sptes s' 1) = None
         \<and> upage (sptes s' 1) = 0xBFFFF000
         \<and> uvaddr_to_spt_entry s' 0xBFFFFFEC = Some 1
         \<and> 1 \<in> set (supp_page_table s' (cur s')))"
proof -
  have a: "\<not> MAX_STACK_SIZE cfg0 < PHYS_BASE - 0xBFFFFFEC"
    by (simp add: cfg0_def PHYS_BASE_def)
  have b: "uvaddr_to_spt_entry st_grow_nopt 0xBFFFFFEC = None"
    "next_spte st_grow_nopt = 1" "supp_page_table st_grow_nopt 1 = []"
    by (simp_all add: uvaddr_to_spt_entry_def hash_find_def st_grow_nopt_def st0_def)
  have c: "pg_round_down 0xBFFFFFEC = 0xBFFFF000"
    by (simp add: pg_round_down_def PGSIZE_def)
  obtain s' where run: "grow_stack cfg0 0xBFFFFFEC True st_grow_nopt = Inr (False, s')"
    by (simp add: load_defs st_grow_nopt_def st0_def spte0_def cfg0_def Let_def)
  from C10_grow_stack_not_atomic [OF a run] a b c run show ?thesis by auto
qed

text \<open>
  C6. \<^verbatim>\<open>install_load_page\<close> on an entry that is not resident, with a well-formed frame
  table. If the frame is obtained and then the file read comes up short or
  \<^verbatim>\<open>install_page\<close> fails (for a \<^verbatim>\<open>FILE\<close> or \<^verbatim>\<open>MMAP\<close> entry), or \<^verbatim>\<open>install_page\<close> fails (for a
  \<^verbatim>\<open>CODE\<close> entry), the call returns false, in the state where the frame has been given to
  \<^verbatim>\<open>free_frame\<close>; if the frame cannot be obtained the call panics. Whenever the call returns
  false, one of these failures has happened and the frame obtained has been released: the
  frame-table entry appended for it is gone, no entry of the frame table names the frame,
  and the frame is free in the user pool again; the entry itself is exactly as before the
  call, so its frame is still absent and its backing-store fields are unchanged.
\<close>

theorem C6_install_load_failure:
  assumes wf: "ft_wf s" and nonres: "frame (sptes s p) = None"
  shows
    "(\<forall>k s1. type (sptes s p) = CODE
        \<and> get_frame_for_page (PAL_USER OR PAL_ZERO) (Some p) s = Inr (Some k, s1)
        \<and> fst (install_page (upage (sptes s p)) k True s1) = False
        \<longrightarrow> install_load_page p s = Inr (False, free_frame k s1))
     \<and> (\<forall>k s1 rd. type (sptes s p) \<noteq> CODE
        \<and> get_frame_for_page PAL_USER (Some p) s = Inr (Some k, s1)
        \<and> rd = file_read (spte_file (sptes s p)) (page_read_bytes (sptes s p))
                  (file_seek (spte_file (sptes s p)) (ofs (sptes s p)) s1)
        \<and> (fst rd \<noteq> page_read_bytes (sptes s p)
            \<or> fst (install_page (upage (sptes s p)) k (writable (sptes s p)) (snd rd)) = False)
        \<longrightarrow> install_load_page p s = Inr (False, free_frame k (snd rd)))
     \<and> (\<forall>e. get_frame_for_page
              (case type (sptes s p) of
                 CODE \<Rightarrow> PAL_USER OR PAL_ZERO | FILE \<Rightarrow> PAL_USER | MMAP \<Rightarrow> PAL_USER)
              (Some p) s = Inl e
        \<longrightarrow> install_load_page p s = Inl e \<and> is_panic e)
     \<and> (\<forall>s'. install_load_page p s = Inr (False, s') \<longrightarrow>
          sptes s' p = sptes s p
          \<and> (\<exists>k s1.
                get_frame_for_page
                  (case type (sptes s p) of
                     CODE \<Rightarrow> PAL_USER OR PAL_ZERO | FILE \<Rightarrow> PAL_USER | MMAP \<Rightarrow> PAL_USER)
                  (Some p) s = Inr (Some k, s1)
                \<and> frame_table s1 =
                    frame_table s' @ [\<lparr>fte_frame = Some k, fte_spte = p, fte_t = cur s\<rparr>]
                \<and> (\<forall>fte\<in>set (frame_table s'). fte_frame fte \<noteq> Some k)
                \<and> k \<in> set (user_pool s')
                \<and> (if type (sptes s p) = CODE
                    then fst (install_page (upage (sptes s p)) k True s1) = False
                    else (let rd = file_read (spte_file (sptes s p))
                                     (page_read_bytes (sptes s p))
                                     (file_seek (spte_file (sptes s p)) (ofs (sptes s p)) s1)
                          in fst rd \<noteq> page_read_bytes (sptes s p)
                             \<or> fst (install_page (upage (sptes s p)) k
                                      (writable (sptes s p)) (snd rd)) = False))))"
proof (intro conjI allI impI)
  fix k s1
  assume a: "type (sptes s p) = CODE
        \<and> get_frame_for_page (PAL_USER OR PAL_ZERO) (Some p) s = Inr (Some k, s1)
        \<and> fst (install_page (upage (sptes s p)) k True s1) = False"
  then have g: "get_frame_for_page (PAL_USER OR PAL_ZERO) (Some p) s = Inr (Some k, s1)"
    by simp
  from a get_frame_for_page_entry [OF g nonres]
  have "fst (install_page (upage (sptes s1 p)) k True s1) = False" by simp
  from install_load_swap_fails [OF g this] a
  show "install_load_page p s = Inr (False, free_frame k s1)"
    by (simp add: install_load_page_def)
next
  fix k s1 rd
  assume a: "type (sptes s p) \<noteq> CODE
        \<and> get_frame_for_page PAL_USER (Some p) s = Inr (Some k, s1)
        \<and> rd = file_read (spte_file (sptes s p)) (page_read_bytes (sptes s p))
                  (file_seek (spte_file (sptes s p)) (ofs (sptes s p)) s1)
        \<and> (fst rd \<noteq> page_read_bytes (sptes s p)
            \<or> fst (install_page (upage (sptes s p)) k (writable (sptes s p)) (snd rd)) = False)"
  then have g: "get_frame_for_page PAL_USER (Some p) s = Inr (Some k, s1)" by simp
  note e = get_frame_for_page_entry [OF g nonres]
  from a have rd0: "rd = file_read (spte_file (sptes s p)) (page_read_bytes (sptes s p))
        (file_seek (spte_file (sptes s p)) (ofs (sptes s p)) s1)"
    and c0: "fst rd \<noteq> page_read_bytes (sptes s p)
        \<or> fst (install_page (upage (sptes s p)) k (writable (sptes s p)) (snd rd)) = False"
    by blast+
  from rd0 have rd: "rd = file_read (spte_file (sptes s1 p)) (page_read_bytes (sptes s1 p))
        (file_seek (spte_file (sptes s1 p)) (ofs (sptes s1 p)) s1)"
    by (simp only: e)
  from c0 have c: "fst rd \<noteq> page_read_bytes (sptes s1 p) \<or>
        fst (install_page (upage (sptes s1 p)) k (writable (sptes s1 p)) (snd rd)) = False"
    by (simp only: e)
  have "install_load_file p s = Inr (False, free_frame k (snd rd))"
    using g rd c by (rule install_load_file_fails)
  with a show "install_load_page p s = Inr (False, free_frame k (snd rd))"
    by (cases "type (sptes s p)") (simp_all add: install_load_page_def install_load_mmap_def)
next
  fix e
  assume a: "get_frame_for_page
      (case type (sptes s p) of
         CODE \<Rightarrow> PAL_USER OR PAL_ZERO | FILE \<Rightarrow> PAL_USER | MMAP \<Rightarrow> PAL_USER)
      (Some p) s = Inl e"
  then show "install_load_page p s = Inl e" by (rule install_load_page_Inl)
  from a have "\<exists>flags. get_frame_for_page flags (Some p) s = Inl e" by blast
  then obtain flags where "get_frame_for_page flags (Some p) s = Inl e" by blast
  then have "frame_alloc flags s = Inl e \<or> e = Panic ''Not able to get frame''"
    by (auto simp: get_frame_for_page_def user_flag_guard_False
        split: sum.splits prod.splits option.splits)
  then show "is_panic e" using frame_alloc_Inl by auto
next
  fix s'
  assume fail: "install_load_page p s = Inr (False, s')"
  note r = install_load_page_False_released [OF wf nonres fail]
  from r show "sptes s' p = sptes s p" by (rule conjunct1)
  from r show "\<exists>k s1.
                get_frame_for_page
                  (case type (sptes s p) of
                     CODE \<Rightarrow> PAL_USER OR PAL_ZERO | FILE \<Rightarrow> PAL_USER | MMAP \<Rightarrow> PAL_USER)
                  (Some p) s = Inr (Some k, s1)
                \<and> frame_table s1 =
                    frame_table s' @ [\<lparr>fte_frame = Some k, fte_spte = p, fte_t = cur s\<rparr>]
                \<and> (\<forall>fte\<in>set (frame_table s'). fte_frame fte \<noteq> Some k)
                \<and> k \<in> set (user_pool s')
                \<and> (if type (sptes s p) = CODE
                    then fst (install_page (upage (sptes s p)) k True s1) = False
                    else (let rd = file_read (spte_file (sptes s p))
                                     (page_read_bytes (sptes s p))
                                     (file_seek (spte_file (sptes s p)) (ofs (sptes s p)) s1)
                          in fst rd \<noteq> page_read_bytes (sptes s p)
                             \<or> fst (install_page (upage (sptes s p)) k
                                      (writable (sptes s p)) (snd rd)) = False))"
    by (rule conjunct2)
qed

theorem C6_install_load_failure_witness:
  "(\<exists>k s1 s'. type (sptes st_short 1) = FILE
      \<and> get_frame_for_page PAL_USER (Some 1) st_short = Inr (Some k, s1)
      \<and> fst (file_read 3 4096 (file_seek 3 0 s1)) \<noteq> 4096
      \<and> install_load_page 1 st_short = Inr (False, s')
      \<and> sptes s' 1 = sptes st_short 1
      \<and> frame_table s1 = frame_table s' @ [\<lparr>fte_frame = Some k, fte_spte = 1, fte_t = 1\<rparr>]
      \<and> k \<in> set (user_pool s'))
   \<and> (\<exists>k s1 s'. type (sptes st_file_nopt 1) = FILE
      \<and> get_frame_for_page PAL_USER (Some 1) st_file_nopt = Inr (Some k, s1)
      \<and> fst (file_read 3 4096 (file_seek 3 0 s1)) = 4096
      \<and> fst (install_page 0x08048000 k False (snd (file_read 3 4096 (file_seek 3 0 s1))))
          = False
      \<and> install_load_page 1 st_file_nopt = Inr (False, s')
      \<and> sptes s' 1 = sptes st_file_nopt 1
      \<and> frame_table s1 = frame_table s' @ [\<lparr>fte_frame = Some k, fte_spte = 1, fte_t = 1\<rparr>]
      \<and> k \<in> set (user_pool s'))
   \<and> (\<exists>k s1 s'. type (sptes st_mmap_short 1) = MMAP
      \<and> get_frame_for_page PAL_USER (Some 1) st_mmap_short = Inr (Some k, s1)
      \<and> fst (file_read 3 4096 (file_seek 3 0 s1)) \<noteq> 4096
      \<and> install_load_page 1 st_mmap_short = Inr (False, s')
      \<and> sptes s' 1 = sptes st_mmap_short 1
      \<and> frame_table s1 = frame_table s' @ [\<lparr>fte_frame = Some k, fte_spte = 1, fte_t = 1\<rparr>]
      \<and> k \<in> set (user_pool s'))
   \<and> (\<exists>k s1 s'. type (sptes st_mmap_nopt 1) = MMAP
      \<and> get_frame_for_page PAL_USER (Some 1) st_mmap_nopt = Inr (Some k, s1)
      \<and> fst (file_read 3 4096 (file_seek 3 0 s1)) = 4096
      \<and> fst (install_page 0x10000000 k True (snd (file_read 3 4096 (file_seek 3 0 s1))))
          = False
      \<and> install_load_page 1 st_mmap_nopt = Inr (False, s')
      \<and> sptes s' 1 = sptes st_mmap_nopt 1
      \<and> frame_table s1 = frame_table s' @ [\<lparr>fte_frame = Some k, fte_spte = 1, fte_t = 1\<rparr>]
      \<and> k \<in> set (user_pool s'))
   \<and> (\<exists>k s1 s'. type (sptes st_code_nopt 1) = CODE
      \<and> get_frame_for_page (PAL_USER OR PAL_ZERO) (Some 1) st_code_nopt = Inr (Some k, s1)
      \<and> fst (install_page 0xBFFFF000 k True s1) = False
      \<and> install_load_page 1 st_code_nopt = Inr (False, s')
      \<and> sptes s' 1 = sptes st_code_nopt 1
      \<and> frame_table s1 = frame_table s' @ [\<lparr>fte_frame = Some k, fte_spte = 1, fte_t = 1\<rparr>]
      \<and> k \<in> set (user_pool s'))"
proof -
  have a1: "\<exists>k s1 s'. type (sptes st_short 1) = FILE
        \<and> get_frame_for_page PAL_USER (Some 1) st_short = Inr (Some k, s1)
        \<and> fst (file_read 3 4096 (file_seek 3 0 s1)) \<noteq> 4096
        \<and> install_load_page 1 st_short = Inr (False, s')
        \<and> sptes s' 1 = sptes st_short 1
        \<and> frame_table s1 = frame_table s' @ [\<lparr>fte_frame = Some k, fte_spte = 1, fte_t = 1\<rparr>]
        \<and> k \<in> set (user_pool s')"
  proof -
    have wf: "ft_wf st_short" by (simp add: ft_wf_def st_load_defs)
    have nonres: "frame (sptes st_short 1) = None" by (simp add: st_load_defs)
    have e: "type (sptes st_short 1) = FILE" "spte_file (sptes st_short 1) = 3"
      "page_read_bytes (sptes st_short 1) = 4096" "ofs (sptes st_short 1) = 0"
      "upage (sptes st_short 1) = 0x08048000" "writable (sptes st_short 1) = False"
      "cur st_short = 1"
      by (simp_all add: st_load_defs)
    obtain k s1 where g: "get_frame_for_page PAL_USER (Some 1) st_short = Inr (Some k, s1)"
      and c: "fst (file_read 3 4096 (file_seek 3 0 s1)) \<noteq> 4096"
      by (simp add: load_defs install_defs st_load_defs Let_def)
    let ?rd = "file_read 3 4096 (file_seek 3 0 s1)"
    let ?s' = "free_frame k (snd ?rd)"
    note T = C6_install_load_failure [OF wf nonres]
    have prem: "type (sptes st_short 1) \<noteq> CODE
        \<and> get_frame_for_page PAL_USER (Some 1) st_short = Inr (Some k, s1)
        \<and> ?rd = file_read (spte_file (sptes st_short 1)) (page_read_bytes (sptes st_short 1))
                  (file_seek (spte_file (sptes st_short 1)) (ofs (sptes st_short 1)) s1)
        \<and> (fst ?rd \<noteq> page_read_bytes (sptes st_short 1)
            \<or> fst (install_page (upage (sptes st_short 1)) k (writable (sptes st_short 1))
                     (snd ?rd)) = False)"
      using g c unfolding e by simp
    from T [THEN conjunct2, THEN conjunct1, rule_format, OF prem]
    have run: "install_load_page 1 st_short = Inr (False, ?s')" .
    from T [THEN conjunct2, THEN conjunct2, THEN conjunct2, rule_format, OF run]
    have keep: "sptes ?s' 1 = sptes st_short 1"
      and ex: "\<exists>k' s1'. get_frame_for_page PAL_USER (Some 1) st_short = Inr (Some k', s1')
          \<and> frame_table s1' =
              frame_table ?s' @ [\<lparr>fte_frame = Some k', fte_spte = 1, fte_t = 1\<rparr>]
          \<and> k' \<in> set (user_pool ?s')"
      by (simp_all only: e spte_type.case) blast
    from ex g have rel:
      "frame_table s1 = frame_table ?s' @ [\<lparr>fte_frame = Some k, fte_spte = 1, fte_t = 1\<rparr>]
        \<and> k \<in> set (user_pool ?s')"
      by auto
    from e(1) g c run keep rel show ?thesis by blast
  qed
  have a2: "\<exists>k s1 s'. type (sptes st_file_nopt 1) = FILE
        \<and> get_frame_for_page PAL_USER (Some 1) st_file_nopt = Inr (Some k, s1)
        \<and> fst (file_read 3 4096 (file_seek 3 0 s1)) = 4096
        \<and> fst (install_page 0x08048000 k False (snd (file_read 3 4096 (file_seek 3 0 s1))))
            = False
        \<and> install_load_page 1 st_file_nopt = Inr (False, s')
        \<and> sptes s' 1 = sptes st_file_nopt 1
        \<and> frame_table s1 = frame_table s' @ [\<lparr>fte_frame = Some k, fte_spte = 1, fte_t = 1\<rparr>]
        \<and> k \<in> set (user_pool s')"
  proof -
    have wf: "ft_wf st_file_nopt" by (simp add: ft_wf_def st_load_defs)
    have nonres: "frame (sptes st_file_nopt 1) = None" by (simp add: st_load_defs)
    have e: "type (sptes st_file_nopt 1) = FILE" "spte_file (sptes st_file_nopt 1) = 3"
      "page_read_bytes (sptes st_file_nopt 1) = 4096" "ofs (sptes st_file_nopt 1) = 0"
      "upage (sptes st_file_nopt 1) = 0x08048000" "writable (sptes st_file_nopt 1) = False"
      "cur st_file_nopt = 1"
      by (simp_all add: st_load_defs)
    obtain k s1 where g: "get_frame_for_page PAL_USER (Some 1) st_file_nopt = Inr (Some k, s1)"
      and c: "fst (file_read 3 4096 (file_seek 3 0 s1)) = 4096"
        "fst (install_page 0x08048000 k False (snd (file_read 3 4096 (file_seek 3 0 s1)))) = False"
      by (simp add: load_defs install_defs st_load_defs Let_def)
    let ?rd = "file_read 3 4096 (file_seek 3 0 s1)"
    let ?s' = "free_frame k (snd ?rd)"
    note T = C6_install_load_failure [OF wf nonres]
    have prem: "type (sptes st_file_nopt 1) \<noteq> CODE
        \<and> get_frame_for_page PAL_USER (Some 1) st_file_nopt = Inr (Some k, s1)
        \<and> ?rd = file_read (spte_file (sptes st_file_nopt 1)) (page_read_bytes (sptes st_file_nopt 1))
                  (file_seek (spte_file (sptes st_file_nopt 1)) (ofs (sptes st_file_nopt 1)) s1)
        \<and> (fst ?rd \<noteq> page_read_bytes (sptes st_file_nopt 1)
            \<or> fst (install_page (upage (sptes st_file_nopt 1)) k (writable (sptes st_file_nopt 1))
                     (snd ?rd)) = False)"
      using g c unfolding e by simp
    from T [THEN conjunct2, THEN conjunct1, rule_format, OF prem]
    have run: "install_load_page 1 st_file_nopt = Inr (False, ?s')" .
    from T [THEN conjunct2, THEN conjunct2, THEN conjunct2, rule_format, OF run]
    have keep: "sptes ?s' 1 = sptes st_file_nopt 1"
      and ex: "\<exists>k' s1'. get_frame_for_page PAL_USER (Some 1) st_file_nopt = Inr (Some k', s1')
          \<and> frame_table s1' =
              frame_table ?s' @ [\<lparr>fte_frame = Some k', fte_spte = 1, fte_t = 1\<rparr>]
          \<and> k' \<in> set (user_pool ?s')"
      by (simp_all only: e spte_type.case) blast
    from ex g have rel:
      "frame_table s1 = frame_table ?s' @ [\<lparr>fte_frame = Some k, fte_spte = 1, fte_t = 1\<rparr>]
        \<and> k \<in> set (user_pool ?s')"
      by auto
    from e(1) g c run keep rel show ?thesis by blast
  qed
  have a3: "\<exists>k s1 s'. type (sptes st_mmap_short 1) = MMAP
        \<and> get_frame_for_page PAL_USER (Some 1) st_mmap_short = Inr (Some k, s1)
        \<and> fst (file_read 3 4096 (file_seek 3 0 s1)) \<noteq> 4096
        \<and> install_load_page 1 st_mmap_short = Inr (False, s')
        \<and> sptes s' 1 = sptes st_mmap_short 1
        \<and> frame_table s1 = frame_table s' @ [\<lparr>fte_frame = Some k, fte_spte = 1, fte_t = 1\<rparr>]
        \<and> k \<in> set (user_pool s')"
  proof -
    have wf: "ft_wf st_mmap_short" by (simp add: ft_wf_def st_load_defs)
    have nonres: "frame (sptes st_mmap_short 1) = None" by (simp add: st_load_defs)
    have e: "type (sptes st_mmap_short 1) = MMAP" "spte_file (sptes st_mmap_short 1) = 3"
      "page_read_bytes (sptes st_mmap_short 1) = 4096" "ofs (sptes st_mmap_short 1) = 0"
      "upage (sptes st_mmap_short 1) = 0x10000000" "writable (sptes st_mmap_short 1) = True"
      "cur st_mmap_short = 1"
      by (simp_all add: st_load_defs)
    obtain k s1 where g: "get_frame_for_page PAL_USER (Some 1) st_mmap_short = Inr (Some k, s1)"
      and c: "fst (file_read 3 4096 (file_seek 3 0 s1)) \<noteq> 4096"
      by (simp add: load_defs install_defs st_load_defs Let_def)
    let ?rd = "file_read 3 4096 (file_seek 3 0 s1)"
    let ?s' = "free_frame k (snd ?rd)"
    note T = C6_install_load_failure [OF wf nonres]
    have prem: "type (sptes st_mmap_short 1) \<noteq> CODE
        \<and> get_frame_for_page PAL_USER (Some 1) st_mmap_short = Inr (Some k, s1)
        \<and> ?rd = file_read (spte_file (sptes st_mmap_short 1)) (page_read_bytes (sptes st_mmap_short 1))
                  (file_seek (spte_file (sptes st_mmap_short 1)) (ofs (sptes st_mmap_short 1)) s1)
        \<and> (fst ?rd \<noteq> page_read_bytes (sptes st_mmap_short 1)
            \<or> fst (install_page (upage (sptes st_mmap_short 1)) k (writable (sptes st_mmap_short 1))
                     (snd ?rd)) = False)"
      using g c unfolding e by simp
    from T [THEN conjunct2, THEN conjunct1, rule_format, OF prem]
    have run: "install_load_page 1 st_mmap_short = Inr (False, ?s')" .
    from T [THEN conjunct2, THEN conjunct2, THEN conjunct2, rule_format, OF run]
    have keep: "sptes ?s' 1 = sptes st_mmap_short 1"
      and ex: "\<exists>k' s1'. get_frame_for_page PAL_USER (Some 1) st_mmap_short = Inr (Some k', s1')
          \<and> frame_table s1' =
              frame_table ?s' @ [\<lparr>fte_frame = Some k', fte_spte = 1, fte_t = 1\<rparr>]
          \<and> k' \<in> set (user_pool ?s')"
      by (simp_all only: e spte_type.case) blast
    from ex g have rel:
      "frame_table s1 = frame_table ?s' @ [\<lparr>fte_frame = Some k, fte_spte = 1, fte_t = 1\<rparr>]
        \<and> k \<in> set (user_pool ?s')"
      by auto
    from e(1) g c run keep rel show ?thesis by blast
  qed
  have a4: "\<exists>k s1 s'. type (sptes st_mmap_nopt 1) = MMAP
        \<and> get_frame_for_page PAL_USER (Some 1) st_mmap_nopt = Inr (Some k, s1)
        \<and> fst (file_read 3 4096 (file_seek 3 0 s1)) = 4096
        \<and> fst (install_page 0x10000000 k True (snd (file_read 3 4096 (file_seek 3 0 s1))))
            = False
        \<and> install_load_page 1 st_mmap_nopt = Inr (False, s')
        \<and> sptes s' 1 = sptes st_mmap_nopt 1
        \<and> frame_table s1 = frame_table s' @ [\<lparr>fte_frame = Some k, fte_spte = 1, fte_t = 1\<rparr>]
        \<and> k \<in> set (user_pool s')"
  proof -
    have wf: "ft_wf st_mmap_nopt" by (simp add: ft_wf_def st_load_defs)
    have nonres: "frame (sptes st_mmap_nopt 1) = None" by (simp add: st_load_defs)
    have e: "type (sptes st_mmap_nopt 1) = MMAP" "spte_file (sptes st_mmap_nopt 1) = 3"
      "page_read_bytes (sptes st_mmap_nopt 1) = 4096" "ofs (sptes st_mmap_nopt 1) = 0"
      "upage (sptes st_mmap_nopt 1) = 0x10000000" "writable (sptes st_mmap_nopt 1) = True"
      "cur st_mmap_nopt = 1"
      by (simp_all add: st_load_defs)
    obtain k s1 where g: "get_frame_for_page PAL_USER (Some 1) st_mmap_nopt = Inr (Some k, s1)"
      and c: "fst (file_read 3 4096 (file_seek 3 0 s1)) = 4096"
        "fst (install_page 0x10000000 k True (snd (file_read 3 4096 (file_seek 3 0 s1)))) = False"
      by (simp add: load_defs install_defs st_load_defs Let_def)
    let ?rd = "file_read 3 4096 (file_seek 3 0 s1)"
    let ?s' = "free_frame k (snd ?rd)"
    note T = C6_install_load_failure [OF wf nonres]
    have prem: "type (sptes st_mmap_nopt 1) \<noteq> CODE
        \<and> get_frame_for_page PAL_USER (Some 1) st_mmap_nopt = Inr (Some k, s1)
        \<and> ?rd = file_read (spte_file (sptes st_mmap_nopt 1)) (page_read_bytes (sptes st_mmap_nopt 1))
                  (file_seek (spte_file (sptes st_mmap_nopt 1)) (ofs (sptes st_mmap_nopt 1)) s1)
        \<and> (fst ?rd \<noteq> page_read_bytes (sptes st_mmap_nopt 1)
            \<or> fst (install_page (upage (sptes st_mmap_nopt 1)) k (writable (sptes st_mmap_nopt 1))
                     (snd ?rd)) = False)"
      using g c unfolding e by simp
    from T [THEN conjunct2, THEN conjunct1, rule_format, OF prem]
    have run: "install_load_page 1 st_mmap_nopt = Inr (False, ?s')" .
    from T [THEN conjunct2, THEN conjunct2, THEN conjunct2, rule_format, OF run]
    have keep: "sptes ?s' 1 = sptes st_mmap_nopt 1"
      and ex: "\<exists>k' s1'. get_frame_for_page PAL_USER (Some 1) st_mmap_nopt = Inr (Some k', s1')
          \<and> frame_table s1' =
              frame_table ?s' @ [\<lparr>fte_frame = Some k', fte_spte = 1, fte_t = 1\<rparr>]
          \<and> k' \<in> set (user_pool ?s')"
      by (simp_all only: e spte_type.case) blast
    from ex g have rel:
      "frame_table s1 = frame_table ?s' @ [\<lparr>fte_frame = Some k, fte_spte = 1, fte_t = 1\<rparr>]
        \<and> k \<in> set (user_pool ?s')"
      by auto
    from e(1) g c run keep rel show ?thesis by blast
  qed
  have a5: "\<exists>k s1 s'. type (sptes st_code_nopt 1) = CODE
        \<and> get_frame_for_page (PAL_USER OR PAL_ZERO) (Some 1) st_code_nopt = Inr (Some k, s1)
        \<and> fst (install_page 0xBFFFF000 k True s1) = False
        \<and> install_load_page 1 st_code_nopt = Inr (False, s')
        \<and> sptes s' 1 = sptes st_code_nopt 1
        \<and> frame_table s1 = frame_table s' @ [\<lparr>fte_frame = Some k, fte_spte = 1, fte_t = 1\<rparr>]
        \<and> k \<in> set (user_pool s')"
  proof -
    have wf: "ft_wf st_code_nopt" by (simp add: ft_wf_def st_load_defs)
    have nonres: "frame (sptes st_code_nopt 1) = None" by (simp add: st_load_defs)
    have e: "type (sptes st_code_nopt 1) = CODE" "upage (sptes st_code_nopt 1) = 0xBFFFF000" "cur st_code_nopt = 1"
      by (simp_all add: st_load_defs)
    obtain k s1 where
      g: "get_frame_for_page (PAL_USER OR PAL_ZERO) (Some 1) st_code_nopt = Inr (Some k, s1)"
      and c: "fst (install_page 0xBFFFF000 k True s1) = False"
      by (simp add: load_defs install_defs st_load_defs Let_def)
    let ?s' = "free_frame k s1"
    note T = C6_install_load_failure [OF wf nonres]
    have prem: "type (sptes st_code_nopt 1) = CODE
        \<and> get_frame_for_page (PAL_USER OR PAL_ZERO) (Some 1) st_code_nopt = Inr (Some k, s1)
        \<and> fst (install_page (upage (sptes st_code_nopt 1)) k True s1) = False"
      using g c unfolding e by simp
    from T [THEN conjunct1, rule_format, OF prem]
    have run: "install_load_page 1 st_code_nopt = Inr (False, ?s')" .
    from T [THEN conjunct2, THEN conjunct2, THEN conjunct2, rule_format, OF run]
    have keep: "sptes ?s' 1 = sptes st_code_nopt 1"
      and ex: "\<exists>k' s1'. get_frame_for_page (PAL_USER OR PAL_ZERO) (Some 1) st_code_nopt = Inr (Some k', s1')
          \<and> frame_table s1' =
              frame_table ?s' @ [\<lparr>fte_frame = Some k', fte_spte = 1, fte_t = 1\<rparr>]
          \<and> k' \<in> set (user_pool ?s')"
      by (simp_all only: e spte_type.case) blast
    from ex g have rel:
      "frame_table s1 = frame_table ?s' @ [\<lparr>fte_frame = Some k, fte_spte = 1, fte_t = 1\<rparr>]
        \<and> k \<in> set (user_pool ?s')"
      by auto
    from e(1) g c run keep rel show ?thesis by blast
  qed
  from a1 a2 a3 a4 a5 show ?thesis by (intro conjI)
qed

text \<open>
  C2 (the code at a failing input). \<^verbatim>\<open>create_spte_mmap\<close> is to return \<^verbatim>\<open>NULL\<close> and leave the
  table as it was when a target page has an entry already. In \<open>st_mmap\<close> the three-page
  file 5 is mapped at \<open>0x10000000\<close> and the second page is taken. The entry made for the
  first page is handed to \<^verbatim>\<open>free_spte_mmap\<close>, whose walk covers the whole length of the
  file: it frees the first entry, steps over the entry of the other file, looks up the
  third page, which has no entry, and dereferences the null result. The call does not
  return. When the conflict is on the first page nothing has been inserted and the call
  returns \<^verbatim>\<open>NULL\<close> with the state unchanged.
\<close>

theorem C2_create_spte_mmap_rollback_null_deref:
  "uvaddr_to_spt_entry st_mmap 0x10000000 = None
   \<and> uvaddr_to_spt_entry st_mmap 0x10001000 = Some 1
   \<and> uvaddr_to_spt_entry st_mmap 0x10002000 = None
   \<and> file_length st_mmap 5 = 12288
   \<and> create_spte_mmap 5 12288 0x10000000 st_mmap = Some (Inl NullDeref)
   \<and> create_spte_mmap 5 12288 0x10001000 st_mmap = Some (Inr (None, st_mmap))"
  by (simp add: mmap_defs st_mmap_def st0_def spte0_def Let_def)

text \<open>
  C5 (the code at a failing input). Write validation is to end the process when a page of
  the buffer is a read-only \<^verbatim>\<open>FILE\<close> page. In \<open>st_read\<close> the call \<^verbatim>\<open>read (2, 0x08048FF0, 32)\<close>
  has a buffer whose last byte lies in such a page; \<^verbatim>\<open>is_writable\<close> looks at the entry of the
  first byte only, and the call returns 32. In \<open>st_read_stdin\<close> the call
  \<^verbatim>\<open>read (0, 0x08049000, 32)\<close> reads the keyboard into the read-only page itself;
  \<^verbatim>\<open>is_writable\<close> is not called on that branch, and the call returns 32.
\<close>

theorem C5_read_into_read_only_page:
  "umem st_read 0xBFFFFF00 = 2 \<and> umem st_read 0xBFFFFF04 = 0x08048FF0
   \<and> umem st_read 0xBFFFFF08 = 32
   \<and> uvaddr_to_spt_entry st_read (0x08048FF0 + 31) = Some 2
   \<and> type (sptes st_read 2) = FILE \<and> \<not> writable (sptes st_read 2)
   \<and> (\<exists>s'. read cfg0 0xBFFFFF00 st_read = Some (Inr (32, s')))
   \<and> umem st_read_stdin 0xBFFFFF00 = 0 \<and> umem st_read_stdin 0xBFFFFF04 = 0x08049000
   \<and> umem st_read_stdin 0xBFFFFF08 = 32
   \<and> uvaddr_to_spt_entry st_read_stdin 0x08049000 = Some 2
   \<and> type (sptes st_read_stdin 2) = FILE \<and> \<not> writable (sptes st_read_stdin 2)
   \<and> (\<exists>s'. read cfg0 0xBFFFFF00 st_read_stdin = Some (Inr (32, s')))"
proof -
  have a: "\<exists>s'. read cfg0 0xBFFFFF00 st_read = Some (Inr (32, s'))"
    by (simp add: read_defs st_read_def st0_def spte0_def cfg0_def Let_def)
  have b: "\<exists>s'. read cfg0 0xBFFFFF00 st_read_stdin = Some (Inr (32, s'))"
    by (simp add: read_defs st_read_stdin_def st_read_def st0_def spte0_def cfg0_def Let_def)
  have c: "umem st_read 0xBFFFFF00 = 2 \<and> umem st_read 0xBFFFFF04 = 0x08048FF0
      \<and> umem st_read 0xBFFFFF08 = 32
      \<and> uvaddr_to_spt_entry st_read (0x08048FF0 + 31) = Some 2
      \<and> type (sptes st_read 2) = FILE \<and> \<not> writable (sptes st_read 2)"
    by (simp add: read_defs st_read_def st0_def spte0_def)
  have d: "umem st_read_stdin 0xBFFFFF00 = 0 \<and> umem st_read_stdin 0xBFFFFF04 = 0x08049000
      \<and> umem st_read_stdin 0xBFFFFF08 = 32
      \<and> uvaddr_to_spt_entry st_read_stdin 0x08049000 = Some 2
      \<and> type (sptes st_read_stdin 2) = FILE \<and> \<not> writable (sptes st_read_stdin 2)"
    by (simp add: read_defs st_read_stdin_def st_read_def st0_def spte0_def)
  from a b c d show ?thesis by blast
qed

end
